theory Spec2Isabelle
  imports Complex_Main
begin

section \<open>The sketch runtime of p5 (p5/sketch/base.py)\<close>

text \<open>
  The module keeps its state in module globals and in attributes of \<open>builtins\<close>; the
  model threads one record through every function. Calls that leave the module (to the
  renderer, the window, \<open>pyglet.app\<close>, \<open>builtins.exit\<close>) and the call sites of the user's
  hooks are appended to a trace, in the order the source executes them. The calls to the
  renderer, the window and \<open>pyglet.app\<close> are taken to return; \<open>builtins.exit\<close> raises
  \<open>SystemExit\<close>. A function that can raise returns a sum: \<open>Inl\<close> carries the exception and
  the state the globals are left in, \<open>Inr\<close> the state after a normal return.

  Numbers: a Python number (an int or a finite float) is the rational it denotes, and
  float arithmetic is exact; NaN, the infinities and the rounding of float operations are
  outside the model. Python's \<open>int(x)\<close> truncates towards zero. The argument \<open>dt\<close> of
  \<open>update\<close> is the time the clock measured since the last tick. At \<open>dt = -0.0001\<close> the
  frame rate estimate divides by zero; the theorem about setup holds for every other
  \<open>dt\<close>, and the theorems about ticks that draw or drain the queue take \<open>dt \<ge> 0\<close> and a
  target frame rate of at least 1, which \<open>set_frame_rate\<close> maintains.
\<close>

subsection \<open>Values, errors, user code\<close>

datatype pyval = PNone | PBool bool | PInt int | PFloat rat | PStr string

datatype error = ZeroDivisionError | TypeError | SystemExit

definition py_int :: "rat \<Rightarrow> int" where
  "py_int x = (if 0 \<le> x then \<lfloor>x\<rfloor> else \<lceil>x\<rceil>)"

text \<open>
  User code (the bodies of \<open>setup\<close>, \<open>draw\<close> and the event handlers) is modelled by the
  sequence of calls it makes to the controls the module exports in \<open>__all__\<close>.
\<close>

datatype api =
    NoLoop
  | Loop
  | Redraw
  | Size rat rat
  | Title string
  | NoCursor
  | Cursor string
  | Exit "pyval list" "(string \<times> pyval) list"
  | SetFrameRate rat

text \<open>
  The parameters a function declares, in order: a positional parameter without or with
  a default, \<open>*args\<close>, a keyword-only parameter without or with a default, \<open>**kwargs\<close>.
  \<open>__code__.co_argcount\<close> counts the positional ones only.
\<close>

datatype param = Param | ParamDefault | StarArgs | KwOnly | KwOnlyDefault | StarKwargs

fun positional :: "param \<Rightarrow> bool" where
  "positional Param = True"
| "positional ParamDefault = True"
| "positional p = False"

text \<open>
  A call with \<open>n\<close> positional arguments and no keyword argument binds when every
  positional parameter without a default gets an argument, arguments beyond the
  positional parameters are taken by \<open>*args\<close>, and no keyword-only parameter lacks a
  default; otherwise Python raises \<open>TypeError\<close>.
\<close>

definition accepts_args :: "param list \<Rightarrow> nat \<Rightarrow> bool" where
  "accepts_args ps n \<longleftrightarrow>
     count_list ps Param \<le> n \<and> (n \<le> length (filter positional ps) \<or> StarArgs \<in> set ps) \<and>
     KwOnly \<notin> set ps"

text \<open>
  A callable is a user function (its name, the parameters it declares, the control calls
  of its body, the value it returns), the closure \<open>fixed_func\<close> that
  \<open>fix_handler_interface\<close> builds around a function, or the module's \<open>_dummy_handler\<close>.
  The last two are declared with \<open>*args, **kwargs\<close>.
\<close>

datatype callable =
    UserFn string "param list" "api list" pyval
  | Fixed callable
  | Dummy

fun co_argcount :: "callable \<Rightarrow> nat" where
  "co_argcount (UserFn name ps body r) = length (filter positional ps)"
| "co_argcount (Fixed f) = 0"
| "co_argcount Dummy = 0"

datatype event =
    PreRender
  | PostRender
  | CallSetup
  | CallDraw
  | CallHandler callable pyval
  | PygletAppExit
  | BuiltinsExit "pyval list" "(string \<times> pyval) list"
  | SetSize rat rat
  | SetCaption string
  | SetMouseVisible bool
  | GetSystemMouseCursor pyval
  | SetMouseCursor pyval
  | RendererInitialize
  | SetVisible
  | ScheduleInterval rat
  | AppRun

text \<open>
  The global name \<open>redraw\<close> is bound to \<open>False\<close> on line 84, rebound to the function
  object by the \<open>def redraw\<close> of line 131, and assigned booleans afterwards.
\<close>

datatype binding = FunctionObject | Bool bool

fun truthy :: "binding \<Rightarrow> bool" where
  "truthy FunctionObject = True"
| "truthy (Bool b) = b"

text \<open>
  The cursor names of the window class (\<open>window.CURSOR_DEFAULT\<close>, ...) are pyglet's; the
  module only reads them.
\<close>

record cursor_names =
  CURSOR_DEFAULT :: pyval
  CURSOR_CROSSHAIR :: pyval
  CURSOR_HAND :: pyval
  CURSOR_SIZE :: pyval
  CURSOR_TEXT :: pyval
  CURSOR_WAIT :: pyval

text \<open>
  The module global \<open>setup\<close> is the field \<open>setup_hook\<close> (\<open>setup\<close> is a keyword of
  Isabelle).
\<close>

record sketch =
  width :: int
  height :: int
  title :: string
  frame_count :: int
  frame_rate :: int
  window :: cursor_names
  handlers :: "string \<rightharpoonup> callable"
  handler_queue :: "(callable \<times> pyval) list"
  looping :: bool
  redraw :: binding
  setup_done :: bool
  target_frame_rate :: rat
  time_since_last_frame :: rat
  setup_hook :: callable
  draw :: callable
  trace :: "event list"

type_synonym result = "(error \<times> sketch) + sketch"

definition final :: "result \<Rightarrow> sketch" where
  "final r = (case r of Inl (e, s) \<Rightarrow> s | Inr s \<Rightarrow> s)"

definition emit :: "event \<Rightarrow> sketch \<Rightarrow> sketch" where
  "emit e s = s\<lparr>trace := trace s @ [e]\<rparr>"

definition events_since :: "sketch \<Rightarrow> sketch \<Rightarrow> event list" where
  "events_since s s' = drop (length (trace s)) (trace s')"

subsection \<open>Module initialisation\<close>

definition handler_names :: "string list" where
  "handler_names = [''key_press'', ''key_pressed'', ''key_released'', ''key_typed'',
     ''mouse_clicked'', ''mouse_dragged'', ''mouse_moved'', ''mouse_pressed'',
     ''mouse_released'', ''mouse_wheel'']"

definition pyglet_cursor_names :: cursor_names where
  "pyglet_cursor_names = \<lparr>CURSOR_DEFAULT = PNone, CURSOR_CROSSHAIR = PStr ''crosshair'',
     CURSOR_HAND = PStr ''hand'', CURSOR_SIZE = PStr ''size'', CURSOR_TEXT = PStr ''text'',
     CURSOR_WAIT = PStr ''wait''\<rparr>"

definition default_setup :: callable where
  "default_setup = UserFn ''setup'' [] [] PNone"

definition default_draw :: callable where
  "default_draw = UserFn ''draw'' [] [] PNone"

text \<open>The state after lines 33-87, where \<open>redraw = False\<close>.\<close>

definition globals_assigned :: sketch where
  "globals_assigned = \<lparr>width = 200, height = 200, title = ''p5'', frame_count = - 1,
     frame_rate = 30, window = pyglet_cursor_names,
     handlers = map_of (map (\<lambda>h. (h, Dummy)) handler_names),
     handler_queue = [], looping = True, redraw = Bool False, setup_done = False,
     target_frame_rate = 60, time_since_last_frame = 0,
     setup_hook = default_setup, draw = default_draw, trace = []\<rparr>"

text \<open>The state once the module is imported: \<open>def redraw\<close> has rebound the name.\<close>

definition module_init :: sketch where
  "module_init = globals_assigned\<lparr>redraw := FunctionObject\<rparr>"

subsection \<open>The controls\<close>

definition no_loop :: "sketch \<Rightarrow> sketch" where
  "no_loop s = s\<lparr>looping := False\<rparr>"

definition loop :: "sketch \<Rightarrow> sketch" where
  "loop s = s\<lparr>looping := True\<rparr>"

definition redraw_fn :: "sketch \<Rightarrow> sketch" where
  "redraw_fn s = (if \<not> looping s then s\<lparr>redraw := Bool True\<rparr> else s)"

definition size_fn :: "rat \<Rightarrow> rat \<Rightarrow> sketch \<Rightarrow> sketch" where
  "size_fn w h s = emit (SetSize w h) (s\<lparr>width := py_int w, height := py_int h\<rparr>)"

definition title_fn :: "string \<Rightarrow> sketch \<Rightarrow> sketch" where
  "title_fn new_title s = emit (SetCaption new_title) (s\<lparr>title := new_title\<rparr>)"

definition no_cursor :: "sketch \<Rightarrow> sketch" where
  "no_cursor s = emit (SetMouseVisible False) s"

definition cursor_map :: "cursor_names \<Rightarrow> string \<rightharpoonup> pyval" where
  "cursor_map w = map_of [(''ARROW'', CURSOR_DEFAULT w), (''CROSS'', CURSOR_CROSSHAIR w),
     (''HAND'', CURSOR_HAND w), (''MOVE'', CURSOR_SIZE w), (''TEXT'', CURSOR_TEXT w),
     (''WAIT'', CURSOR_WAIT w)]"

definition selected_cursor :: "cursor_names \<Rightarrow> string \<Rightarrow> pyval" where
  "selected_cursor w cursor_type =
     (case cursor_map w cursor_type of Some c \<Rightarrow> c | None \<Rightarrow> PStr ''ARROW'')"

text \<open>
  \<open>window.get_system_mouse_cursor(name)\<close> returns the platform's cursor for \<open>name\<close>; the
  model identifies that cursor with the name it was requested by.
\<close>

definition cursor :: "string \<Rightarrow> sketch \<Rightarrow> sketch" where
  "cursor cursor_type s =
     (let sel = selected_cursor (window s) cursor_type
      in emit (SetMouseCursor sel) (emit (SetMouseVisible True) (emit (GetSystemMouseCursor sel) s)))"

text \<open>\<open>builtins.exit\<close> raises \<open>SystemExit\<close>: the call does not return.\<close>

definition exit_fn :: "pyval list \<Rightarrow> (string \<times> pyval) list \<Rightarrow> sketch \<Rightarrow> result" where
  "exit_fn args kwargs s = Inl (SystemExit, emit (BuiltinsExit args kwargs) (emit PygletAppExit s))"

definition set_frame_rate :: "rat \<Rightarrow> sketch \<Rightarrow> sketch" where
  "set_frame_rate fm s = s\<lparr>target_frame_rate := of_int (max 1 (py_int fm))\<rparr>"

subsection \<open>Running user code\<close>

fun exec :: "api \<Rightarrow> sketch \<Rightarrow> result" where
  "exec NoLoop s = Inr (no_loop s)"
| "exec Loop s = Inr (loop s)"
| "exec Redraw s = Inr (redraw_fn s)"
| "exec (Size w h) s = Inr (size_fn w h s)"
| "exec (Title t) s = Inr (title_fn t s)"
| "exec NoCursor s = Inr (no_cursor s)"
| "exec (Cursor k) s = Inr (cursor k s)"
| "exec (Exit args kwargs) s = exit_fn args kwargs s"
| "exec (SetFrameRate fm) s = Inr (set_frame_rate fm s)"

fun exec_body :: "api list \<Rightarrow> sketch \<Rightarrow> result" where
  "exec_body [] s = Inr s"
| "exec_body (c # cs) s = (case exec c s of Inl x \<Rightarrow> Inl x | Inr s' \<Rightarrow> exec_body cs s')"

text \<open>
  A call whose arguments do not bind raises \<open>TypeError\<close>. \<open>fixed_func\<close> and
  \<open>_dummy_handler\<close> take \<open>*args, **kwargs\<close> and accept any call; pyglet's
  \<open>EVENT_HANDLED\<close> is \<open>True\<close>.
\<close>

fun call :: "callable \<Rightarrow> pyval list \<Rightarrow> sketch \<Rightarrow> (error \<times> sketch) + (pyval \<times> sketch)" where
  "call (UserFn name ps body r) args s =
     (if \<not> accepts_args ps (length args) then Inl (TypeError, s)
      else (case exec_body body s of Inl x \<Rightarrow> Inl x | Inr s' \<Rightarrow> Inr (r, s')))"
| "call (Fixed func) args s = call func [] s"
| "call Dummy args s = Inr (PBool True, s)"

subsection \<open>The frame tick\<close>

text \<open>Lines 230-233: the draw dispatch.\<close>

definition draw_step :: "sketch \<Rightarrow> result" where
  "draw_step s =
     (if looping s \<or> truthy (redraw s) then
        (let s1 = emit CallDraw (s\<lparr>frame_count := frame_count s + 1\<rparr>)
         in case call (draw s1) [] s1 of
              Inl x \<Rightarrow> Inl x
            | Inr (v, s2) \<Rightarrow> Inr (s2\<lparr>redraw := Bool False\<rparr>))
      else Inr s)"

text \<open>Lines 234-235: the loop over the queue.\<close>

fun dispatch :: "(callable \<times> pyval) list \<Rightarrow> sketch \<Rightarrow> result" where
  "dispatch [] s = Inr s"
| "dispatch ((function, ev) # q) s =
     (case call function [ev] (emit (CallHandler function ev) s) of
        Inl x \<Rightarrow> Inl x
      | Inr (v, s') \<Rightarrow> dispatch q s')"

text \<open>Lines 225-237: what happens between \<open>pre_render\<close> and \<open>post_render\<close>.\<close>

definition frame_body :: "bool \<Rightarrow> sketch \<Rightarrow> result" where
  "frame_body correct_frame_rate s =
     (if \<not> setup_done s then
        (let s1 = emit CallSetup (s\<lparr>frame_count := frame_count s + 1\<rparr>)
         in case call (setup_hook s1) [] s1 of
              Inl x \<Rightarrow> Inl x
            | Inr (v, s2) \<Rightarrow> Inr (s2\<lparr>setup_done := True\<rparr>))
      else if correct_frame_rate \<or> frame_count s = 0 then
        (case draw_step s of
           Inl x \<Rightarrow> Inl x
         | Inr s1 \<Rightarrow>
             (case dispatch (handler_queue s1) s1 of
                Inl x \<Rightarrow> Inl x
              | Inr s2 \<Rightarrow> Inr (s2\<lparr>handler_queue := [], time_since_last_frame := 0\<rparr>)))
      else Inr s)"

definition update :: "rat \<Rightarrow> sketch \<Rightarrow> result" where
  "update dt s =
     (if dt + 1 / 10000 = 0 then Inl (ZeroDivisionError, s)
      else
        (let s1 = s\<lparr>frame_rate := py_int (1 / (dt + 1 / 10000))\<rparr>;
             s2 = s1\<lparr>time_since_last_frame := time_since_last_frame s1 + dt\<rparr>
         in if target_frame_rate s2 = 0 then Inl (ZeroDivisionError, s2)
            else
              (let correct_frame_rate = (time_since_last_frame s2 > 1 / target_frame_rate s2)
               in case frame_body correct_frame_rate (emit PreRender s2) of
                    Inl x \<Rightarrow> Inl x
                  | Inr s3 \<Rightarrow> Inr (emit PostRender s3))))"

subsection \<open>Registration\<close>

definition fix_handler_interface :: "callable \<Rightarrow> callable" where
  "fix_handler_interface func = (if co_argcount func = 0 then Fixed func else func)"

definition initialize :: "sketch \<Rightarrow> sketch" where
  "initialize s = emit SetVisible (emit RendererInitialize s)"

definition register_handler :: "(string \<rightharpoonup> callable) \<Rightarrow> string \<Rightarrow> sketch \<Rightarrow> sketch" where
  "register_handler main handler s =
     (case main handler of
        Some handler_func \<Rightarrow> s\<lparr>handlers := (handlers s)(handler \<mapsto> fix_handler_interface handler_func)\<rparr>
      | None \<Rightarrow> s)"

text \<open>
  \<open>run\<close>, with the namespace of \<open>__main__\<close> as a map from names to functions, up to the
  point where \<open>pyglet.app.run()\<close> takes over and calls \<open>update\<close> from its clock.
\<close>

definition run :: "callable option \<Rightarrow> callable option \<Rightarrow> (string \<rightharpoonup> callable) \<Rightarrow> sketch \<Rightarrow> result" where
  "run setup_func draw_func main s =
     (let s1 = (case setup_func of
                  Some f \<Rightarrow> s\<lparr>setup_hook := f\<rparr>
                | None \<Rightarrow> (case main ''setup'' of Some f \<Rightarrow> s\<lparr>setup_hook := f\<rparr> | None \<Rightarrow> s));
          s2 = (case draw_func of
                  Some f \<Rightarrow> s1\<lparr>draw := f\<rparr>
                | None \<Rightarrow> (case main ''draw'' of Some f \<Rightarrow> s1\<lparr>draw := f\<rparr> | None \<Rightarrow> s1));
          s3 = fold (register_handler main) handler_names s2;
          s4 = initialize s3
      in if target_frame_rate s4 + 1 = 0 then Inl (ZeroDivisionError, s4)
         else Inr (emit AppRun (emit (ScheduleInterval (1 / (target_frame_rate s4 + 1))) s4)))"

subsection \<open>Runs\<close>

text \<open>
  Modelled from the spec: the platform's input dispatch, which is not in this file,
  appends (callback, payload) pairs to the event queue in arrival order.
\<close>

definition enqueue :: "callable \<Rightarrow> pyval \<Rightarrow> sketch \<Rightarrow> sketch" where
  "enqueue function ev s = s\<lparr>handler_queue := handler_queue s @ [(function, ev)]\<rparr>"

datatype op = Tick rat | Control api | Enqueue callable pyval

fun step :: "op \<Rightarrow> sketch \<Rightarrow> result" where
  "step (Tick dt) s = update dt s"
| "step (Control c) s = exec c s"
| "step (Enqueue function ev) s = Inr (enqueue function ev s)"

text \<open>An exception that leaves \<open>update\<close> or a control ends the event loop: the run stops.\<close>

fun run_ops :: "op list \<Rightarrow> sketch \<Rightarrow> result" where
  "run_ops [] s = Inr s"
| "run_ops (x # xs) s = (case step x s of Inl e \<Rightarrow> Inl e | Inr s' \<Rightarrow> run_ops xs s')"

subsection \<open>Observations on traces\<close>

text \<open>
  The events a tick itself produces: the calls of the two hooks, of the queued
  handlers, and of the renderer. All other events come from controls called by user
  code.
\<close>

fun hook_call :: "event \<Rightarrow> bool" where
  "hook_call CallSetup = True"
| "hook_call CallDraw = True"
| "hook_call e = False"

fun handler_call :: "event \<Rightarrow> bool" where
  "handler_call (CallHandler f e) = True"
| "handler_call e = False"

fun render_call :: "event \<Rightarrow> bool" where
  "render_call PreRender = True"
| "render_call PostRender = True"
| "render_call e = False"

definition tick_event :: "event \<Rightarrow> bool" where
  "tick_event e \<longleftrightarrow> hook_call e \<or> handler_call e \<or> render_call e"

text \<open>
  \<open>correct_frame_rate\<close> of \<open>update\<close> (the specification's \<open>dueForFrame\<close>) as a function of the
  state before the tick, and the state after the first two assignments of \<open>update\<close>.
\<close>

definition due_for_frame :: "rat \<Rightarrow> sketch \<Rightarrow> bool" where
  "due_for_frame dt s \<longleftrightarrow> time_since_last_frame s + dt > 1 / target_frame_rate s"

definition timed :: "rat \<Rightarrow> sketch \<Rightarrow> sketch" where
  "timed dt s = s\<lparr>frame_rate := py_int (1 / (dt + 1 / 10000)),
     time_since_last_frame := time_since_last_frame s + dt\<rparr>"

text \<open>The control calls a callable makes when it runs.\<close>

fun body_of :: "callable \<Rightarrow> api list" where
  "body_of (UserFn name ps body r) = body"
| "body_of (Fixed func) = body_of func"
| "body_of Dummy = []"

text \<open>
  A callable that returns when called with \<open>n\<close> arguments: it accepts them and its body
  does not call \<open>exit()\<close>.
\<close>

fun accepts :: "callable \<Rightarrow> nat \<Rightarrow> bool" where
  "accepts (UserFn name ps body r) n \<longleftrightarrow> accepts_args ps n"
| "accepts (Fixed func) n \<longleftrightarrow> accepts func 0"
| "accepts Dummy n \<longleftrightarrow> True"

definition returns_normally :: "callable \<Rightarrow> nat \<Rightarrow> bool" where
  "returns_normally f n \<longleftrightarrow> accepts f n \<and> (\<forall>args kwargs. Exit args kwargs \<notin> set (body_of f))"

text \<open>
  What user code can do to the state (\<open>quiet\<close>): it leaves \<open>frame_count\<close>, \<open>setup_done\<close>,
  the queue, the hooks and the handlers alone, keeps a target rate of at least 1, and
  adds no tick event to the trace. What a step of the runtime does (\<open>effect\<close>): it adds the
  given tick events, among other events, and counts the hook calls in \<open>frame_count\<close>.
\<close>

definition quiet :: "sketch \<Rightarrow> sketch \<Rightarrow> bool" where
  "quiet s s' \<longleftrightarrow>
     frame_count s' = frame_count s \<and> setup_done s' = setup_done s \<and>
     handler_queue s' = handler_queue s \<and> draw s' = draw s \<and>
     setup_hook s' = setup_hook s \<and> handlers s' = handlers s \<and> window s' = window s \<and>
     (1 \<le> target_frame_rate s \<longrightarrow> 1 \<le> target_frame_rate s') \<and>
     (\<exists>evs. trace s' = trace s @ evs \<and> filter tick_event evs = [])"

definition effect :: "event list \<Rightarrow> sketch \<Rightarrow> sketch \<Rightarrow> bool" where
  "effect tevs s s' \<longleftrightarrow>
     frame_count s' = frame_count s + int (length (filter hook_call tevs)) \<and>
     draw s' = draw s \<and> setup_hook s' = setup_hook s \<and>
     (1 \<le> target_frame_rate s \<longrightarrow> 1 \<le> target_frame_rate s') \<and>
     (\<exists>evs. trace s' = trace s @ evs \<and> filter tick_event evs = tevs)"

text \<open>The hook and handler calls of a tick that returns, between the renderer's two.\<close>

definition drawn :: "sketch \<Rightarrow> event list" where
  "drawn s = (if looping s \<or> truthy (redraw s) then [CallDraw] else [])"

definition handler_calls :: "(callable \<times> pyval) list \<Rightarrow> event list" where
  "handler_calls q = map (\<lambda>(function, ev). CallHandler function ev) q"

definition tick_calls :: "bool \<Rightarrow> sketch \<Rightarrow> event list" where
  "tick_calls correct_frame_rate s =
     (if \<not> setup_done s then [CallSetup]
      else if correct_frame_rate \<or> frame_count s = 0
        then drawn s @ handler_calls (handler_queue s)
      else [])"


text \<open>
  Python's \<open>round\<close> (to the nearest integer, a tie to the even one): what the
  specification writes for \<open>set_frame_rate\<close>, where the source calls \<open>int\<close>.
\<close>

definition round_half_even :: "rat \<Rightarrow> int" where
  "round_half_even x =
     (let f = \<lfloor>x\<rfloor>; d = x - of_int f
      in if d < 1 / 2 then f else if 1 / 2 < d then f + 1 else if even f then f else f + 1)"

subsection \<open>Example sketches\<close>

text \<open>
  Handlers: \<open>mouse_pressed()\<close> without parameters, \<open>key_pressed(event)\<close> with one, a
  \<open>key_pressed(event)\<close> that calls \<open>exit()\<close> and a \<open>mouse_pressed(*args)\<close>; a \<open>__main__\<close>
  that defines the first two.
\<close>

definition zero_arg_handler :: callable where
  "zero_arg_handler = UserFn ''mouse_pressed'' [] [NoLoop] (PInt 7)"

definition one_arg_handler :: callable where
  "one_arg_handler = UserFn ''key_pressed'' [Param] [Redraw] PNone"

definition quit_handler :: callable where
  "quit_handler = UserFn ''key_pressed'' [Param] [Exit [] []] PNone"

definition star_args_handler :: callable where
  "star_args_handler = UserFn ''mouse_pressed'' [StarArgs] [NoLoop] PNone"

definition example_main :: "string \<rightharpoonup> callable" where
  "example_main = [''mouse_pressed'' \<mapsto> zero_arg_handler, ''key_pressed'' \<mapsto> one_arg_handler]"

text \<open>A sketch whose \<open>setup\<close> calls \<open>no_loop()\<close>.\<close>

definition no_loop_setup :: callable where
  "no_loop_setup = UserFn ''setup'' [] [NoLoop] PNone"


text \<open>
  A sketch that has stopped looping and has drawn once; a sketch, set up, with three
  events in its queue.
\<close>

definition idle_sketch :: sketch where
  "idle_sketch = module_init\<lparr>looping := False, setup_done := True, frame_count := 1,
     redraw := Bool False\<rparr>"

definition queued_sketch :: sketch where
  "queued_sketch = module_init\<lparr>setup_done := True, frame_count := 0,
     handler_queue := [(Fixed zero_arg_handler, PStr ''E1''), (one_arg_handler, PStr ''E2''),
       (Dummy, PStr ''E3'')]\<rparr>"

text \<open>A sketch, set up, whose first queued handler calls \<open>exit()\<close>.\<close>

definition quitting_sketch :: sketch where
  "quitting_sketch = module_init\<lparr>setup_done := True, frame_count := 0,
     handler_queue := [(quit_handler, PStr ''q''), (one_arg_handler, PStr ''E2'')]\<rparr>"




text \<open>
  A sketch whose \<open>setup\<close> calls \<open>no_loop()\<close> and whose \<open>draw\<close> asks for one more frame
  with \<open>redraw()\<close>.
\<close>

definition redrawing_draw :: callable where
  "redrawing_draw = UserFn ''draw'' [] [Redraw] PNone"

definition redrawing_sketch :: sketch where
  "redrawing_sketch = module_init\<lparr>setup_hook := no_loop_setup, draw := redrawing_draw\<rparr>"

section \<open>How user code and the tick extend the trace\<close>

lemma quiet_refl: "quiet s s"
  by (simp add: quiet_def)

lemma quiet_trans: "quiet s s' \<Longrightarrow> quiet s' s'' \<Longrightarrow> quiet s s''"
proof -
  assume a: "quiet s s'" and b: "quiet s' s''"
  from a obtain evs where e1: "trace s' = trace s @ evs" "filter tick_event evs = []"
    unfolding quiet_def by blast
  from b obtain evs' where e2: "trace s'' = trace s' @ evs'" "filter tick_event evs' = []"
    unfolding quiet_def by blast
  from e1 e2 have "trace s'' = trace s @ (evs @ evs') \<and> filter tick_event (evs @ evs') = []"
    by simp
  then have "\<exists>evs. trace s'' = trace s @ evs \<and> filter tick_event evs = []" by blast
  with a b show ?thesis unfolding quiet_def by simp
qed

lemma exec_quiet: "quiet s (final (exec c s))"
  by (cases c) (simp_all add: quiet_def final_def no_loop_def loop_def redraw_fn_def size_fn_def
      title_fn_def no_cursor_def cursor_def exit_fn_def set_frame_rate_def emit_def tick_event_def Let_def)

lemma exec_body_quiet: "quiet s (final (exec_body cs s))"
proof (induction cs arbitrary: s)
  case Nil
  show ?case by (simp add: final_def quiet_refl)
next
  case (Cons c cs)
  show ?case
  proof (cases "exec c s")
    case (Inl x)
    with exec_quiet [of s c] show ?thesis by simp
  next
    case (Inr s')
    with exec_quiet [of s c] have "quiet s s'" by (simp add: final_def)
    with Cons [of s'] Inr show ?thesis by (simp add: quiet_trans)
  qed
qed

lemma call_quiet_Inl: "call f args s = Inl (e, s') \<Longrightarrow> quiet s s'"
proof (induction f args s rule: call.induct)
  case (1 name ps body r args s)
  then show ?case using exec_body_quiet [of s body]
    by (auto simp: final_def quiet_refl split: if_splits sum.splits)
next
  case (2 func args s)
  then show ?case by simp
next
  case (3 args s)
  then show ?case by simp
qed

lemma call_quiet_Inr: "call f args s = Inr (v, s') \<Longrightarrow> quiet s s'"
proof (induction f args s rule: call.induct)
  case (1 name ps body r args s)
  then show ?case using exec_body_quiet [of s body]
    by (auto simp: final_def quiet_refl split: if_splits sum.splits)
next
  case (2 func args s)
  then show ?case by simp
next
  case (3 args s)
  then show ?case by (simp add: quiet_refl)
qed

lemma effect_refl: "effect [] s s"
  by (simp add: effect_def)

lemma effect_trans:
  assumes a: "effect a s s'" and b: "effect b s' s''"
  shows "effect (a @ b) s s''"
proof -
  from a obtain evs where e1: "trace s' = trace s @ evs" "filter tick_event evs = a"
    unfolding effect_def by blast
  from b obtain evs' where e2: "trace s'' = trace s' @ evs'" "filter tick_event evs' = b"
    unfolding effect_def by blast
  from e1 e2 have "trace s'' = trace s @ (evs @ evs') \<and> filter tick_event (evs @ evs') = a @ b"
    by simp
  then have "\<exists>evs. trace s'' = trace s @ evs \<and> filter tick_event evs = a @ b" by blast
  with a b show ?thesis unfolding effect_def by simp
qed

lemma quiet_effect: "quiet s s' \<Longrightarrow> effect [] s s'"
  by (simp add: quiet_def effect_def)

lemma effect_events:
  "effect tevs s s' \<Longrightarrow> filter tick_event (events_since s s') = tevs"
  by (auto simp: effect_def events_since_def)

lemma effect_frame_count:
  "effect tevs s s' \<Longrightarrow> frame_count s' = frame_count s + int (length (filter hook_call tevs))"
  by (simp add: effect_def)

lemma effect_call_draw:
  "effect [CallDraw] s (emit CallDraw (s\<lparr>frame_count := frame_count s + 1\<rparr>))"
  by (simp add: effect_def emit_def tick_event_def)

lemma effect_call_setup:
  "effect [CallSetup] s (emit CallSetup (s\<lparr>frame_count := frame_count s + 1\<rparr>))"
  by (simp add: effect_def emit_def tick_event_def)

lemma effect_call_handler: "effect [CallHandler f e] s (emit (CallHandler f e) s)"
  by (simp add: effect_def emit_def tick_event_def)

lemma effect_render:
  "effect [PreRender] s (emit PreRender s)" "effect [PostRender] s (emit PostRender s)"
  by (simp_all add: effect_def emit_def tick_event_def)

lemma draw_step_Inr:
  assumes "draw_step s = Inr s'"
  shows "effect (drawn s) s s' \<and> setup_done s' = setup_done s \<and>
         handler_queue s' = handler_queue s"
proof (cases "looping s \<or> truthy (redraw s)")
  case False
  with assms show ?thesis by (simp add: draw_step_def drawn_def effect_refl)
next
  case True
  let ?s1 = "emit CallDraw (s\<lparr>frame_count := frame_count s + 1\<rparr>)"
  from assms True obtain v s2 where c: "call (draw ?s1) [] ?s1 = Inr (v, s2)"
    and s': "s' = s2\<lparr>redraw := Bool False\<rparr>"
    by (auto simp: draw_step_def Let_def split: sum.splits)
  from c have q: "quiet ?s1 s2" by (rule call_quiet_Inr)
  then have "quiet ?s1 s'" using s' by (simp add: quiet_def)
  then have "effect ([CallDraw] @ []) s s'"
    by (intro effect_trans [OF effect_call_draw] quiet_effect)
  moreover from q s' have "setup_done s' = setup_done s \<and> handler_queue s' = handler_queue s"
    by (simp add: quiet_def emit_def)
  ultimately show ?thesis using True by (simp add: drawn_def)
qed

lemma draw_step_Inl:
  assumes "draw_step s = Inl (e, s')"
  shows "effect [CallDraw] s s' \<and> drawn s = [CallDraw] \<and> setup_done s' = setup_done s \<and>
         handler_queue s' = handler_queue s"
proof (cases "looping s \<or> truthy (redraw s)")
  case False
  with assms show ?thesis by (simp add: draw_step_def)
next
  case True
  let ?s1 = "emit CallDraw (s\<lparr>frame_count := frame_count s + 1\<rparr>)"
  from assms True have c: "call (draw ?s1) [] ?s1 = Inl (e, s')"
    by (auto simp: draw_step_def Let_def split: sum.splits)
  from c have q: "quiet ?s1 s'" by (rule call_quiet_Inl)
  then have "effect ([CallDraw] @ []) s s'"
    by (intro effect_trans [OF effect_call_draw] quiet_effect)
  moreover from q have "setup_done s' = setup_done s \<and> handler_queue s' = handler_queue s"
    by (simp add: quiet_def emit_def)
  ultimately show ?thesis using True by (simp add: drawn_def)
qed

lemma dispatch_Inr:
  "dispatch q s = Inr s' \<Longrightarrow>
     effect (handler_calls q) s s' \<and> setup_done s' = setup_done s \<and>
     handler_queue s' = handler_queue s"
proof (induction q arbitrary: s)
  case Nil
  then show ?case by (simp add: handler_calls_def effect_refl)
next
  case (Cons p q)
  obtain f e where p: "p = (f, e)" by (cases p)
  from Cons.prems p obtain v s1 where c: "call f [e] (emit (CallHandler f e) s) = Inr (v, s1)"
    and d: "dispatch q s1 = Inr s'"
    by (auto split: sum.splits)
  from c have q1: "quiet (emit (CallHandler f e) s) s1" by (rule call_quiet_Inr)
  have e1: "effect ([CallHandler f e] @ []) s s1"
    by (intro effect_trans [OF effect_call_handler] quiet_effect q1)
  from Cons.IH [OF d] have e2: "effect (handler_calls q) s1 s'" by simp
  from e1 e2 have "effect (([CallHandler f e] @ []) @ handler_calls q) s s'"
    by (rule effect_trans)
  moreover from q1 Cons.IH [OF d]
  have "setup_done s' = setup_done s \<and> handler_queue s' = handler_queue s"
    by (simp add: quiet_def emit_def)
  ultimately show ?case using p by (simp add: handler_calls_def)
qed

lemma dispatch_Inl:
  "dispatch q s = Inl (x, s') \<Longrightarrow>
     (\<exists>k. 1 \<le> k \<and> k \<le> length q \<and> effect (handler_calls (take k q)) s s') \<and>
     setup_done s' = setup_done s \<and> handler_queue s' = handler_queue s"
proof (induction q arbitrary: s)
  case Nil
  then show ?case by simp
next
  case (Cons p q)
  obtain f e where p: "p = (f, e)" by (cases p)
  let ?s0 = "emit (CallHandler f e) s"
  show ?case
  proof (cases "call f [e] ?s0")
    case (Inl y)
    with Cons.prems p have c: "call f [e] ?s0 = Inl (x, s')" by simp
    from c have q1: "quiet ?s0 s'" by (rule call_quiet_Inl)
    have "effect ([CallHandler f e] @ []) s s'"
      by (intro effect_trans [OF effect_call_handler] quiet_effect q1)
    then have "1 \<le> (1::nat) \<and> 1 \<le> length (p # q) \<and> effect (handler_calls (take 1 (p # q))) s s'"
      using p by (simp add: handler_calls_def)
    moreover from q1 have "setup_done s' = setup_done s \<and> handler_queue s' = handler_queue s"
      by (simp add: quiet_def emit_def)
    ultimately show ?thesis by blast
  next
    case (Inr y)
    obtain v s1 where y: "y = (v, s1)" by (cases y)
    with Inr Cons.prems p have d: "dispatch q s1 = Inl (x, s')" by simp
    from Inr y have q1: "quiet ?s0 s1" by (auto intro: call_quiet_Inr)
    have e1: "effect ([CallHandler f e] @ []) s s1"
      by (intro effect_trans [OF effect_call_handler] quiet_effect q1)
    from Cons.IH [OF d] obtain k where k: "1 \<le> k" "k \<le> length q"
      "effect (handler_calls (take k q)) s1 s'"
      and pr: "setup_done s' = setup_done s1 \<and> handler_queue s' = handler_queue s1" by blast
    from e1 k(3) have "effect (([CallHandler f e] @ []) @ handler_calls (take k q)) s s'"
      by (rule effect_trans)
    then have "effect (handler_calls (take (Suc k) (p # q))) s s'"
      using p by (simp add: handler_calls_def)
    moreover have "1 \<le> Suc k \<and> Suc k \<le> length (p # q)" using k by simp
    moreover from q1 pr have "setup_done s' = setup_done s \<and> handler_queue s' = handler_queue s"
      by (simp add: quiet_def emit_def)
    ultimately show ?thesis by blast
  qed
qed

lemma handler_calls_take: "handler_calls (take k q) = take k (handler_calls q)"
  by (simp add: handler_calls_def take_map)

lemma frame_body_Inr:
  assumes "frame_body c s = Inr s'"
  shows "effect (tick_calls c s) s s' \<and> setup_done s' \<and>
         (setup_done s \<and> (c \<or> frame_count s = 0) \<longrightarrow>
            handler_queue s' = [] \<and> time_since_last_frame s' = 0)"
proof (cases "setup_done s")
  case False
  let ?s1 = "emit CallSetup (s\<lparr>frame_count := frame_count s + 1\<rparr>)"
  from assms False obtain v s2 where c: "call (setup_hook ?s1) [] ?s1 = Inr (v, s2)"
    and s': "s' = s2\<lparr>setup_done := True\<rparr>"
    by (auto simp: frame_body_def Let_def split: sum.splits)
  from c have "quiet ?s1 s2" by (rule call_quiet_Inr)
  then have "effect [] ?s1 s'" using s' by (simp add: quiet_def effect_def)
  with effect_call_setup have "effect ([CallSetup] @ []) s s'" by (rule effect_trans)
  with False s' show ?thesis by (simp add: tick_calls_def)
next
  case True
  show ?thesis
  proof (cases "c \<or> frame_count s = 0")
    case False
    with True assms show ?thesis by (auto simp: frame_body_def tick_calls_def effect_refl)
  next
    case elig: True
    from assms True elig obtain s1 s2 where d: "draw_step s = Inr s1"
      and q: "dispatch (handler_queue s1) s1 = Inr s2"
      and s': "s' = s2\<lparr>handler_queue := [], time_since_last_frame := 0\<rparr>"
      by (auto simp: frame_body_def split: sum.splits)
    note d1 = draw_step_Inr [OF d]
    note q1 = dispatch_Inr [OF q]
    from d1 q1 have "effect (drawn s @ handler_calls (handler_queue s)) s s2"
      by (auto intro: effect_trans)
    then have "effect (drawn s @ handler_calls (handler_queue s)) s s'"
      using s' by (simp add: effect_def)
    moreover from d1 q1 True s' have "setup_done s'" by simp
    ultimately show ?thesis using True elig s' by (simp add: tick_calls_def)
  qed
qed

lemma frame_body_Inl:
  assumes "frame_body c s = Inl (x, s')"
  shows "(\<exists>k. 1 \<le> k \<and> k \<le> length (tick_calls c s) \<and> effect (take k (tick_calls c s)) s s') \<and>
         setup_done s' = setup_done s"
proof (cases "setup_done s")
  case False
  let ?s1 = "emit CallSetup (s\<lparr>frame_count := frame_count s + 1\<rparr>)"
  from assms False have c: "call (setup_hook ?s1) [] ?s1 = Inl (x, s')"
    by (auto simp: frame_body_def Let_def split: sum.splits)
  from c have q: "quiet ?s1 s'" by (rule call_quiet_Inl)
  then have "effect [] ?s1 s'" by (rule quiet_effect)
  with effect_call_setup have "effect ([CallSetup] @ []) s s'" by (rule effect_trans)
  then have "1 \<le> (1::nat) \<and> 1 \<le> length (tick_calls c s) \<and> effect (take 1 (tick_calls c s)) s s'"
    using False by (simp add: tick_calls_def)
  moreover from q have "setup_done s' = setup_done s" by (simp add: quiet_def emit_def)
  ultimately show ?thesis by blast
next
  case True
  show ?thesis
  proof (cases "c \<or> frame_count s = 0")
    case False
    with True assms show ?thesis by (auto simp: frame_body_def)
  next
    case elig: True
    have tc: "tick_calls c s = drawn s @ handler_calls (handler_queue s)"
      using True elig by (simp add: tick_calls_def)
    show ?thesis
    proof (cases "draw_step s")
      case (Inl y)
      with assms True elig have d: "draw_step s = Inl (x, s')"
        by (auto simp: frame_body_def)
      note d1 = draw_step_Inl [OF d]
      then have "1 \<le> (1::nat) \<and> 1 \<le> length (tick_calls c s) \<and>
                 effect (take 1 (tick_calls c s)) s s'"
        by (simp add: tc)
      with d1 show ?thesis by blast
    next
      case (Inr s1)
      with assms True elig have q: "dispatch (handler_queue s1) s1 = Inl (x, s')"
        by (auto simp: frame_body_def split: sum.splits)
      note d1 = draw_step_Inr [OF Inr]
      from dispatch_Inl [OF q] obtain k where k: "1 \<le> k" "k \<le> length (handler_queue s1)"
        "effect (handler_calls (take k (handler_queue s1))) s1 s'"
        and pr: "setup_done s' = setup_done s1" by blast
      from d1 k(3) have "effect (drawn s @ handler_calls (take k (handler_queue s))) s s'"
        by (auto intro: effect_trans)
      then have "effect (take (length (drawn s) + k) (tick_calls c s)) s s'"
        by (simp add: tc handler_calls_take)
      moreover have "1 \<le> length (drawn s) + k \<and> length (drawn s) + k \<le> length (tick_calls c s)"
        using k d1 by (simp add: tc handler_calls_def)
      moreover from pr d1 have "setup_done s' = setup_done s" by simp
      ultimately show ?thesis by blast
    qed
  qed
qed

lemma update_unfold:
  "dt + 1 / 10000 \<noteq> 0 \<Longrightarrow> target_frame_rate s \<noteq> 0 \<Longrightarrow>
   update dt s =
     (case frame_body (due_for_frame dt s) (emit PreRender (timed dt s)) of
        Inl x \<Rightarrow> Inl x
      | Inr s3 \<Rightarrow> Inr (emit PostRender s3))"
  by (simp add: update_def Let_def due_for_frame_def timed_def)

lemma update_raises_early:
  "dt + 1 / 10000 = 0 \<or> target_frame_rate s = 0 \<Longrightarrow>
   \<exists>s'. update dt s = Inl (ZeroDivisionError, s') \<and> trace s' = trace s \<and>
        frame_count s' = frame_count s \<and> setup_done s' = setup_done s \<and>
        draw s' = draw s \<and> setup_hook s' = setup_hook s \<and>
        target_frame_rate s' = target_frame_rate s \<and> redraw s' = redraw s \<and>
        looping s' = looping s"
  by (auto simp: update_def Let_def)

lemma effect_timed: "effect [PreRender] s (emit PreRender (timed dt s))"
  by (simp add: effect_def emit_def timed_def tick_event_def)

lemma tick_calls_timed: "tick_calls c (emit PreRender (timed dt s)) = tick_calls c s"
  by (simp add: tick_calls_def drawn_def emit_def timed_def)

lemma update_Inr:
  assumes "update dt s = Inr s'"
  shows "effect (PreRender # tick_calls (due_for_frame dt s) s @ [PostRender]) s s' \<and>
         setup_done s' \<and> dt + 1 / 10000 \<noteq> 0 \<and> target_frame_rate s \<noteq> 0"
proof -
  from assms have ok: "dt + 1 / 10000 \<noteq> 0" "target_frame_rate s \<noteq> 0"
    by (auto simp: update_def Let_def split: if_splits)
  let ?s0 = "emit PreRender (timed dt s)"
  from assms update_unfold [OF ok] obtain s3 where
    f: "frame_body (due_for_frame dt s) ?s0 = Inr s3" and s': "s' = emit PostRender s3"
    by (auto split: sum.splits)
  note f1 = frame_body_Inr [OF f]
  from f1 have "effect (tick_calls (due_for_frame dt s) s) ?s0 s3"
    by (simp add: tick_calls_timed)
  with effect_timed have e: "effect ([PreRender] @ tick_calls (due_for_frame dt s) s) s s3"
    by (rule effect_trans)
  from e effect_render(2) [of s3]
  have "effect (([PreRender] @ tick_calls (due_for_frame dt s) s) @ [PostRender]) s s'"
    unfolding s' by (rule effect_trans)
  moreover from f1 s' have "setup_done s'" by (simp add: emit_def)
  ultimately show ?thesis using ok by simp
qed

lemma update_Inl:
  assumes "update dt s = Inl (x, s')" and ok: "dt + 1 / 10000 \<noteq> 0" "target_frame_rate s \<noteq> 0"
  shows "(\<exists>k. 1 \<le> k \<and> k \<le> length (tick_calls (due_for_frame dt s) s) \<and>
              effect (PreRender # take k (tick_calls (due_for_frame dt s) s)) s s') \<and>
         setup_done s' = setup_done s"
proof -
  let ?s0 = "emit PreRender (timed dt s)"
  from assms update_unfold [OF ok] have
    f: "frame_body (due_for_frame dt s) ?s0 = Inl (x, s')"
    by (auto split: sum.splits)
  from frame_body_Inl [OF f] obtain k where k: "1 \<le> k"
    "k \<le> length (tick_calls (due_for_frame dt s) s)"
    "effect (take k (tick_calls (due_for_frame dt s) s)) ?s0 s'"
    and pr: "setup_done s' = setup_done ?s0"
    by (auto simp: tick_calls_timed)
  from effect_timed k(3)
  have "effect ([PreRender] @ take k (tick_calls (due_for_frame dt s) s)) s s'"
    by (rule effect_trans)
  with k pr show ?thesis by (auto simp: emit_def timed_def)
qed

section \<open>The controls\<close>

lemma max_py_int: "max 1 (py_int x) = max 1 \<lfloor>x\<rfloor>"
proof (cases "0 \<le> x")
  case True
  then show ?thesis by (simp add: py_int_def)
next
  case False
  then have "\<lceil>x\<rceil> \<le> 0" by (simp add: ceiling_le_iff)
  moreover from False have "\<lfloor>x\<rfloor> \<le> 0" by (simp add: floor_le_iff)
  ultimately show ?thesis using False by (simp add: py_int_def)
qed

lemma floor_45_7: "\<lfloor>457 / 10 :: rat\<rfloor> = 45"
  by (simp add: floor_eq_iff)

text \<open>
  C1, as the source has it: \<open>set_frame_rate(rate)\<close> sets the target frame rate to
  \<open>max(1, int(rate))\<close>. \<open>int\<close> truncates, so the result is \<open>max(1, floor(rate))\<close>: the
  rate is rounded down, not to the nearest integer. \<open>set_frame_rate(0)\<close> and
  \<open>set_frame_rate(-5)\<close> give 1, \<open>set_frame_rate(45.7)\<close> gives 45.
\<close>

theorem set_frame_rate_truncates:
  "target_frame_rate (set_frame_rate rate s) = of_int (max 1 (py_int rate)) \<and>
   max 1 (py_int rate) = max 1 \<lfloor>rate\<rfloor> \<and>
   target_frame_rate (set_frame_rate 0 s) = 1 \<and>
   target_frame_rate (set_frame_rate (- 5) s) = 1 \<and>
   target_frame_rate (set_frame_rate (457 / 10) s) = 45"
  by (simp add: set_frame_rate_def max_py_int floor_45_7)

text \<open>
  C1 as stated fails at 45.7: rounding to the nearest integer gives 46, the source
  sets 45.
\<close>

theorem set_frame_rate_counterexample:
  "target_frame_rate (set_frame_rate (457 / 10) module_init) = 45 \<and>
   max 1 (round_half_even (457 / 10)) = 46"
  by (simp add: set_frame_rate_def py_int_def round_half_even_def Let_def floor_45_7)

text \<open>
  C2: \<open>cursor("BOGUS")\<close> against \<open>cursor("ARROW")\<close>. For the unknown kind,
  \<open>cursor_map.get(cursor_type, 'ARROW')\<close> yields the key \<open>'ARROW'\<close> itself, and that
  string is what the window is asked for; for \<open>"ARROW"\<close> the window is asked for
  \<open>window.CURSOR_DEFAULT\<close>. Both calls make the cursor visible. Unless the window's
  default cursor name is the string \<open>'ARROW'\<close> (pyglet's is \<open>None\<close>), the two calls differ.
\<close>

theorem cursor_unknown_kind:
  "events_since s (cursor ''BOGUS'' s) =
     [GetSystemMouseCursor (PStr ''ARROW''), SetMouseVisible True, SetMouseCursor (PStr ''ARROW'')] \<and>
   events_since s (cursor ''ARROW'' s) =
     [GetSystemMouseCursor (CURSOR_DEFAULT (window s)), SetMouseVisible True,
      SetMouseCursor (CURSOR_DEFAULT (window s))] \<and>
   (CURSOR_DEFAULT (window s) \<noteq> PStr ''ARROW'' \<longrightarrow> cursor ''BOGUS'' s \<noteq> cursor ''ARROW'' s)"
proof -
  have b: "selected_cursor (window s) ''BOGUS'' = PStr ''ARROW''"
    by (simp add: selected_cursor_def cursor_map_def)
  have a: "selected_cursor (window s) ''ARROW'' = CURSOR_DEFAULT (window s)"
    by (simp add: selected_cursor_def cursor_map_def)
  have t: "\<And>k. trace (cursor k s) = trace s @ [GetSystemMouseCursor (selected_cursor (window s) k),
      SetMouseVisible True, SetMouseCursor (selected_cursor (window s) k)]"
    by (simp add: cursor_def emit_def Let_def)
  have 1: "events_since s (cursor ''BOGUS'' s) =
     [GetSystemMouseCursor (PStr ''ARROW''), SetMouseVisible True, SetMouseCursor (PStr ''ARROW'')]"
    unfolding events_since_def t b by simp
  have 2: "events_since s (cursor ''ARROW'' s) =
     [GetSystemMouseCursor (CURSOR_DEFAULT (window s)), SetMouseVisible True,
      SetMouseCursor (CURSOR_DEFAULT (window s))]"
    unfolding events_since_def t a by simp
  have 3: "CURSOR_DEFAULT (window s) \<noteq> PStr ''ARROW'' \<longrightarrow> cursor ''BOGUS'' s \<noteq> cursor ''ARROW'' s"
  proof
    assume n: "CURSOR_DEFAULT (window s) \<noteq> PStr ''ARROW''"
    show "cursor ''BOGUS'' s \<noteq> cursor ''ARROW'' s"
    proof
      assume "cursor ''BOGUS'' s = cursor ''ARROW'' s"
      then have "events_since s (cursor ''BOGUS'' s) = events_since s (cursor ''ARROW'' s)" by simp
      with 1 2 n show False by simp
    qed
  qed
  from 1 2 3 show ?thesis by blast
qed

text \<open>With pyglet's cursor names, at the state the module starts in.\<close>

theorem cursor_unknown_kind_witness:
  "CURSOR_DEFAULT (window module_init) \<noteq> PStr ''ARROW'' \<and>
   cursor ''BOGUS'' module_init \<noteq> cursor ''ARROW'' module_init \<and>
   events_since module_init (cursor ''BOGUS'' module_init) =
     [GetSystemMouseCursor (PStr ''ARROW''), SetMouseVisible True, SetMouseCursor (PStr ''ARROW'')] \<and>
   events_since module_init (cursor ''ARROW'' module_init) =
     [GetSystemMouseCursor PNone, SetMouseVisible True, SetMouseCursor PNone]"
proof -
  have w: "CURSOR_DEFAULT (window module_init) = PNone"
    by (simp add: module_init_def globals_assigned_def pyglet_cursor_names_def)
  from cursor_unknown_kind [of module_init] w show ?thesis by simp
qed

text \<open>
  C8: every call of \<open>exit\<close> calls \<open>pyglet.app.exit()\<close> first and \<open>builtins.exit\<close> second,
  the latter with the positional and keyword arguments of the call, and does not
  return: \<open>builtins.exit\<close> raises \<open>SystemExit\<close>.
\<close>

theorem exit_shutdown_before_termination:
  "\<exists>s'. exit_fn args kwargs s = Inl (SystemExit, s') \<and>
        trace s' = trace s @ [PygletAppExit, BuiltinsExit args kwargs] \<and>
        exec (Exit args kwargs) s = exit_fn args kwargs s"
  by (simp add: exit_fn_def emit_def)

section \<open>Registration of the event handlers\<close>

lemma register_handler_handlers:
  "handlers (register_handler main x s) h =
     (if h = x then (case main h of Some f \<Rightarrow> Some (fix_handler_interface f) | None \<Rightarrow> handlers s h)
      else handlers s h)"
  by (simp add: register_handler_def split: option.splits)

lemma fold_register_handlers:
  "handlers (fold (register_handler main) names s) h =
     (if h \<in> set names
      then (case main h of Some f \<Rightarrow> Some (fix_handler_interface f) | None \<Rightarrow> handlers s h)
      else handlers s h)"
  by (induction names arbitrary: s) (auto simp: register_handler_handlers split: option.splits)

lemma run_registers:
  "handlers (final (run setup_func draw_func main s)) h =
     (if h \<in> set handler_names
      then (case main h of Some f \<Rightarrow> Some (fix_handler_interface f) | None \<Rightarrow> handlers s h)
      else handlers s h)"
  by (simp add: run_def Let_def final_def initialize_def emit_def fold_register_handlers
      split: option.splits)

text \<open>
  C9, as the source has it: \<open>run\<close> registers, for every handler name that \<open>__main__\<close>
  defines, \<open>fix_handler_interface\<close> of the function found there, and leaves the other
  entries as they were. For a function with \<open>co_argcount = 0\<close>, that is, one that declares
  no positional parameter (no parameter at all, or only \<open>*args\<close>, keyword-only parameters
  or \<open>**kwargs\<close>), that is the closure \<open>fixed_func\<close> around it, built at registration:
  called with any arguments (the event payload), it calls the function with none and
  returns what the function returns. A function that declares one or more positional
  parameters is registered as it is.
\<close>

theorem handlers_registered_with_fixed_interface:
  "handlers (final (run setup_func draw_func main s)) h =
     (if h \<in> set handler_names
      then (case main h of Some f \<Rightarrow> Some (fix_handler_interface f) | None \<Rightarrow> handlers s h)
      else handlers s h) \<and>
   (co_argcount func = 0 \<longrightarrow>
      fix_handler_interface func = Fixed func \<and> call (Fixed func) args st = call func [] st) \<and>
   (co_argcount func \<noteq> 0 \<longrightarrow> fix_handler_interface func = func) \<and>
   (co_argcount (UserFn name ps body r) = 0) = (filter positional ps = []) \<and>
   positional p = (p = Param \<or> p = ParamDefault)"
proof -
  have "positional p = (p = Param \<or> p = ParamDefault)" by (cases p) simp_all
  with run_registers [of setup_func draw_func main s h] show ?thesis
    by (simp add: fix_handler_interface_def)
qed

text \<open>
  A sketch with a \<open>mouse_pressed()\<close> of no parameters and a \<open>key_pressed(event)\<close>
  of one: the first is wrapped, the second is not, \<open>mouse_moved\<close> keeps the default.
\<close>

theorem handlers_registered_witness:
  "co_argcount zero_arg_handler = 0 \<and>
   handlers (final (run None None example_main module_init)) ''mouse_pressed'' =
     Some (Fixed zero_arg_handler) \<and>
   call (Fixed zero_arg_handler) [PStr ''click''] module_init = call zero_arg_handler [] module_init \<and>
   co_argcount one_arg_handler \<noteq> 0 \<and>
   handlers (final (run None None example_main module_init)) ''key_pressed'' = Some one_arg_handler \<and>
   handlers (final (run None None example_main module_init)) ''mouse_moved'' = Some Dummy"
proof -
  have z: "co_argcount zero_arg_handler = 0" by (simp add: zero_arg_handler_def)
  have o: "co_argcount one_arg_handler \<noteq> 0" by (simp add: one_arg_handler_def)
  have m: "example_main ''mouse_pressed'' = Some zero_arg_handler"
    "example_main ''key_pressed'' = Some one_arg_handler" "example_main ''mouse_moved'' = None"
    by (simp_all add: example_main_def)
  have n: "''mouse_pressed'' \<in> set handler_names" "''key_pressed'' \<in> set handler_names"
    "''mouse_moved'' \<in> set handler_names"
    by (simp_all add: handler_names_def)
  have d: "handlers module_init ''mouse_moved'' = Some Dummy"
    by (simp add: module_init_def globals_assigned_def handler_names_def)
  note t1 = handlers_registered_with_fixed_interface
    [of None None example_main module_init "''mouse_pressed''" zero_arg_handler "[PStr ''click'']" module_init]
  note t2 = handlers_registered_with_fixed_interface
    [of None None example_main module_init "''key_pressed''" one_arg_handler "[]" module_init]
  note t3 = handlers_registered_with_fixed_interface
    [of None None example_main module_init "''mouse_moved''" one_arg_handler "[]" module_init]
  from t1 t2 t3 z o m n d show ?thesis by simp
qed

text \<open>
  C9 as stated fails for a handler that declares parameters but no positional one. A
  \<open>mouse_pressed(*args)\<close>, which would take the event payload, is not registered as it is
  but wrapped: \<open>co_argcount\<close> is 0.
\<close>

theorem handlers_registered_counterexample:
  "star_args_handler = UserFn ''mouse_pressed'' [StarArgs] [NoLoop] PNone \<and>
   handlers (final (run None None [''mouse_pressed'' \<mapsto> star_args_handler] module_init))
     ''mouse_pressed'' = Some (Fixed star_args_handler) \<and>
   Fixed star_args_handler \<noteq> star_args_handler \<and>
   call star_args_handler [PStr ''click''] module_init = Inr (PNone, no_loop module_init)"
  by (simp add: run_registers handler_names_def fix_handler_interface_def star_args_handler_def
      accepts_args_def)

section \<open>Runs of the event loop\<close>

lemma filter_hook_tick: "filter hook_call (filter tick_event evs) = filter hook_call evs"
  by (induction evs) (auto simp: tick_event_def)

lemma final_simps: "final (Inl (e, s)) = s" "final (Inr s) = s"
  by (simp_all add: final_def)

lemma update_effect: "\<exists>tevs. effect tevs s (final (update dt s))"
proof (cases "dt + 1 / 10000 = 0 \<or> target_frame_rate s = 0")
  case True
  from update_raises_early [OF True] obtain s' where
    "update dt s = Inl (ZeroDivisionError, s')" "trace s' = trace s"
    "frame_count s' = frame_count s" "draw s' = draw s" "setup_hook s' = setup_hook s"
    "target_frame_rate s' = target_frame_rate s" by blast
  then have "effect [] s (final (update dt s))" by (simp add: effect_def final_simps)
  then show ?thesis ..
next
  case False
  show ?thesis
  proof (cases "update dt s")
    case (Inl y)
    obtain x s' where y: "y = (x, s')" by (cases y)
    from update_Inl [of dt s x s'] Inl y False show ?thesis by (auto simp: final_simps)
  next
    case (Inr s')
    from update_Inr [OF Inr] Inr show ?thesis by (auto simp: final_simps)
  qed
qed

lemma step_effect: "\<exists>tevs. effect tevs s (final (step x s))"
proof (cases x)
  case (Tick dt)
  then show ?thesis using update_effect [of s dt] by simp
next
  case (Control c)
  then show ?thesis using quiet_effect [OF exec_quiet [of s c]] by auto
next
  case (Enqueue f e)
  have "effect [] s (enqueue f e s)" by (simp add: effect_def enqueue_def)
  with Enqueue show ?thesis by (auto simp: final_simps)
qed

lemma run_ops_effect: "\<exists>tevs. effect tevs s (final (run_ops ops s))"
proof (induction ops arbitrary: s)
  case Nil
  show ?case using effect_refl [of s] by (auto simp: final_simps)
next
  case (Cons x xs)
  from step_effect [of s x] obtain a where a: "effect a s (final (step x s))" ..
  show ?case
  proof (cases "step x s")
    case (Inl y)
    with a show ?thesis by auto
  next
    case (Inr s')
    from Cons [of s'] obtain b where b: "effect b s' (final (run_ops xs s'))" ..
    from a Inr have "effect a s s'" by (simp add: final_simps)
    from effect_trans [OF this b] Inr show ?thesis by auto
  qed
qed

text \<open>
  C5: \<open>frame_count\<close> starts at -1. Over any sequence of ticks, control calls and
  queued events, from any state and whether or not the run ends in an exception, it
  grows by exactly the number of calls of the setup hook and of the draw hook made in
  that run: it never decreases, and nothing else changes it.
\<close>

theorem frame_count_accounting:
  "frame_count module_init = - 1 \<and>
   frame_count (final (run_ops ops s)) =
     frame_count s + int (length (filter hook_call (events_since s (final (run_ops ops s))))) \<and>
   frame_count s \<le> frame_count (final (run_ops ops s)) \<and>
   hook_call e = (e = CallSetup \<or> e = CallDraw)"
proof -
  from run_ops_effect [of s ops] obtain tevs where e: "effect tevs s (final (run_ops ops s))" ..
  from effect_events [OF e] have "filter hook_call tevs =
      filter hook_call (events_since s (final (run_ops ops s)))"
    using filter_hook_tick [of "events_since s (final (run_ops ops s))"] by simp
  with effect_frame_count [OF e] have 1: "frame_count (final (run_ops ops s)) =
     frame_count s + int (length (filter hook_call (events_since s (final (run_ops ops s)))))"
    by simp
  have 2: "frame_count module_init = - 1" by (simp add: module_init_def globals_assigned_def)
  have 3: "hook_call e = (e = CallSetup \<or> e = CallDraw)" by (cases e) simp_all
  from 1 2 3 show ?thesis by simp
qed

section \<open>Setup and the first draw\<close>

lemma count_filter_tick:
  "tick_event e \<Longrightarrow> count_list (filter tick_event evs) e = count_list evs e"
  by (induction evs) auto

lemma effect_count:
  "effect tevs s s' \<Longrightarrow> tick_event e \<Longrightarrow> count_list (events_since s s') e = count_list tevs e"
  using effect_events [of tevs s s'] count_filter_tick [of e "events_since s s'"] by simp

lemma effect_member:
  "effect tevs s s' \<Longrightarrow> tick_event e \<Longrightarrow> e \<in> set (events_since s s') \<longleftrightarrow> e \<in> set tevs"
proof -
  assume e: "effect tevs s s'" and t: "tick_event e"
  from effect_events [OF e] have "set tevs = {x \<in> set (events_since s s'). tick_event x}"
    by auto
  with t show ?thesis by simp
qed

lemma tick_event_calls: "tick_event CallSetup" "tick_event CallDraw" "tick_event PreRender"
  "tick_event PostRender" "tick_event (CallHandler f e)"
  by (simp_all add: tick_event_def)

lemma elapsed_ok: "0 \<le> dt \<Longrightarrow> dt + 1 / 10000 \<noteq> (0::rat)"
  by simp

lemma rate_ok: "1 \<le> target_frame_rate s \<Longrightarrow> target_frame_rate s \<noteq> 0"
  by auto

lemma setup_not_in_handler_calls: "CallSetup \<notin> set (handler_calls q)"
  by (auto simp: handler_calls_def)

lemma draw_not_in_handler_calls: "CallDraw \<notin> set (handler_calls q)"
  by (auto simp: handler_calls_def)

lemma setup_not_in_tick_calls: "setup_done s \<Longrightarrow> CallSetup \<notin> set (tick_calls c s)"
  by (auto simp: tick_calls_def drawn_def setup_not_in_handler_calls)

lemma update_after_setup:
  assumes "setup_done s"
  shows "\<exists>tevs. effect tevs s (final (update dt s)) \<and> CallSetup \<notin> set tevs \<and>
           setup_done (final (update dt s))"
proof (cases "dt + 1 / 10000 = 0 \<or> target_frame_rate s = 0")
  case True
  from update_raises_early [OF True] obtain s' where
    "update dt s = Inl (ZeroDivisionError, s')" "trace s' = trace s"
    "frame_count s' = frame_count s" "draw s' = draw s" "setup_hook s' = setup_hook s"
    "target_frame_rate s' = target_frame_rate s" "setup_done s' = setup_done s" by blast
  with assms have "effect [] s (final (update dt s)) \<and> setup_done (final (update dt s))"
    by (simp add: effect_def final_simps)
  then show ?thesis by auto
next
  case False
  note n = setup_not_in_tick_calls [OF assms, of "due_for_frame dt s"]
  show ?thesis
  proof (cases "update dt s")
    case (Inl y)
    obtain x s' where y: "y = (x, s')" by (cases y)
    from update_Inl [of dt s x s'] Inl y False obtain k where
      "effect (PreRender # take k (tick_calls (due_for_frame dt s) s)) s s'"
      "setup_done s' = setup_done s" by auto
    moreover have "CallSetup \<notin> set (PreRender # take k (tick_calls (due_for_frame dt s) s))"
      using n by (auto dest: in_set_takeD)
    ultimately show ?thesis using Inl y assms by (auto simp: final_simps)
  next
    case (Inr s')
    from update_Inr [OF Inr] have
      "effect (PreRender # tick_calls (due_for_frame dt s) s @ [PostRender]) s s'" "setup_done s'"
      by simp_all
    moreover have "CallSetup \<notin> set (PreRender # tick_calls (due_for_frame dt s) s @ [PostRender])"
      using n by simp
    ultimately show ?thesis using Inr by (auto simp: final_simps)
  qed
qed

lemma step_after_setup:
  assumes "setup_done s"
  shows "\<exists>tevs. effect tevs s (final (step x s)) \<and> CallSetup \<notin> set tevs \<and>
           setup_done (final (step x s))"
proof (cases x)
  case (Tick dt)
  then show ?thesis using update_after_setup [OF assms, of dt] by simp
next
  case (Control c)
  from exec_quiet [of s c] have "effect [] s (final (exec c s))" "setup_done (final (exec c s))"
    using assms by (simp_all add: quiet_effect quiet_def)
  with Control show ?thesis by auto
next
  case (Enqueue f e)
  have "effect [] s (enqueue f e s)" "setup_done (enqueue f e s)"
    using assms by (simp_all add: effect_def enqueue_def)
  with Enqueue show ?thesis by (auto simp: final_simps)
qed

lemma run_ops_after_setup:
  "setup_done s \<Longrightarrow>
   \<exists>tevs. effect tevs s (final (run_ops ops s)) \<and> CallSetup \<notin> set tevs \<and>
     setup_done (final (run_ops ops s))"
proof (induction ops arbitrary: s)
  case Nil
  then show ?case using effect_refl [of s] by (auto simp: final_simps)
next
  case (Cons x xs)
  from step_after_setup [OF Cons.prems, of x] obtain a where
    a: "effect a s (final (step x s))" "CallSetup \<notin> set a" "setup_done (final (step x s))"
    by blast
  show ?case
  proof (cases "step x s")
    case (Inl y)
    with a show ?thesis by auto
  next
    case (Inr s')
    with a have sd: "setup_done s'" and ea: "effect a s s'" by (simp_all add: final_simps)
    from Cons.IH [OF sd] obtain b where b: "effect b s' (final (run_ops xs s'))"
      "CallSetup \<notin> set b" "setup_done (final (run_ops xs s'))" by blast
    from effect_trans [OF ea b(1)] a(2) b(2,3) Inr show ?thesis
      by (intro exI [of _ "a @ b"]) simp
  qed
qed

lemma first_update_effect:
  assumes "\<not> setup_done s" "target_frame_rate s \<noteq> 0" "dt + 1 / 10000 \<noteq> 0"
  shows "(update dt s = Inl (x, s') \<longrightarrow> effect [PreRender, CallSetup] s s') \<and>
         (update dt s = Inr s' \<longrightarrow> effect [PreRender, CallSetup, PostRender] s s' \<and> setup_done s')"
proof -
  have tc: "tick_calls (due_for_frame dt s) s = [CallSetup]"
    using assms by (simp add: tick_calls_def)
  have 1: "update dt s = Inl (x, s') \<longrightarrow> effect [PreRender, CallSetup] s s'"
  proof
    assume u: "update dt s = Inl (x, s')"
    from update_Inl [OF u assms(3) assms(2)] obtain k where
      k: "1 \<le> k" "k \<le> length (tick_calls (due_for_frame dt s) s)"
      and e: "effect (PreRender # take k (tick_calls (due_for_frame dt s) s)) s s'" by blast
    from k tc have "k = 1" by simp
    with e tc show "effect [PreRender, CallSetup] s s'" by simp
  qed
  have 2: "update dt s = Inr s' \<longrightarrow> effect [PreRender, CallSetup, PostRender] s s' \<and> setup_done s'"
    using update_Inr [of dt s s'] tc by auto
  from 1 2 show ?thesis ..
qed

lemma not_minus_epsilon: "dt \<noteq> - (1 / 10000) \<Longrightarrow> dt + 1 / 10000 \<noteq> (0::rat)"
  by (simp add: eq_neg_iff_add_eq_0)

text \<open>
  C4, as the source has it: in a state where setup has not run (the module starts in
  one, with \<open>frame_count = -1\<close>) and the target frame rate is not 0 (it starts at 60, and
  \<open>set_frame_rate\<close> never sets 0), the first call of \<open>update\<close> calls the setup hook exactly
  once and adds 1 to \<open>frame_count\<close>, for every \<open>dt\<close> but -0.0001, negative ones included; it
  does not call the draw hook. Whatever follows that call (more ticks, control calls,
  queued events), the setup hook has been called exactly once in the whole run.
\<close>

theorem setup_runs_once_on_first_update:
  assumes "\<not> setup_done s" and "target_frame_rate s \<noteq> 0" and "dt \<noteq> - (1 / 10000)"
  shows "count_list (events_since s (final (update dt s))) CallSetup = 1 \<and>
         CallDraw \<notin> set (events_since s (final (update dt s))) \<and>
         frame_count (final (update dt s)) = frame_count s + 1 \<and>
         count_list (events_since s (final (run_ops (Tick dt # ops) s))) CallSetup = 1 \<and>
         target_frame_rate module_init \<noteq> 0 \<and> target_frame_rate (set_frame_rate fm s0) \<noteq> 0"
proof -
  note fu = first_update_effect [OF assms(1,2) not_minus_epsilon [OF assms(3)]]
  have r: "target_frame_rate module_init \<noteq> 0 \<and> target_frame_rate (set_frame_rate fm s0) \<noteq> 0"
    by (simp add: module_init_def globals_assigned_def set_frame_rate_def max_def)
  show ?thesis
  proof (cases "update dt s")
    case (Inl y)
    obtain x s' where y: "y = (x, s')" by (cases y)
    from fu [of x s'] Inl y have e: "effect [PreRender, CallSetup] s s'"
      by simp
    have f: "final (update dt s) = s'" "final (run_ops (Tick dt # ops) s) = s'"
      using Inl y by (simp_all add: final_simps)
    from effect_count [OF e tick_event_calls(1)] effect_member [OF e tick_event_calls(2)]
      effect_frame_count [OF e] r
    show ?thesis unfolding f by simp
  next
    case (Inr s')
    from fu [of _ s'] Inr
    have e: "effect [PreRender, CallSetup, PostRender] s s'" and sd: "setup_done s'" by simp_all
    have f: "final (update dt s) = s'" "final (run_ops (Tick dt # ops) s) = final (run_ops ops s')"
      using Inr by (simp_all add: final_simps)
    from run_ops_after_setup [OF sd, of ops] obtain b where
      b: "effect b s' (final (run_ops ops s'))" "CallSetup \<notin> set b" by blast
    note eb = effect_trans [OF e b(1)]
    from effect_count [OF eb tick_event_calls(1)] b(2)
    have "count_list (events_since s (final (run_ops ops s'))) CallSetup = 1" by simp
    with effect_count [OF e tick_event_calls(1)] effect_member [OF e tick_event_calls(2)]
      effect_frame_count [OF e] r
    show ?thesis unfolding f by simp
  qed
qed

text \<open>
  From the state the module starts in: a first tick of 0.11 s followed by two more, and
  a first tick with the negative \<open>dt = -0.5\<close>.
\<close>

theorem setup_runs_once_witness:
  "\<not> setup_done module_init \<and> target_frame_rate module_init \<noteq> 0 \<and>
   (11 / 100 :: rat) \<noteq> - (1 / 10000) \<and>
   count_list (events_since module_init (final (update (11 / 100) module_init))) CallSetup = 1 \<and>
   CallDraw \<notin> set (events_since module_init (final (update (11 / 100) module_init))) \<and>
   frame_count (final (update (11 / 100) module_init)) = 0 \<and>
   count_list (events_since module_init
     (final (run_ops [Tick (11 / 100), Tick (11 / 100), Tick (11 / 100)] module_init))) CallSetup = 1 \<and>
   (- (1 / 2) :: rat) \<noteq> - (1 / 10000) \<and>
   count_list (events_since module_init (final (update (- (1 / 2)) module_init))) CallSetup = 1 \<and>
   CallDraw \<notin> set (events_since module_init (final (update (- (1 / 2)) module_init))) \<and>
   frame_count (final (update (- (1 / 2)) module_init)) = 0"
proof -
  have h: "\<not> setup_done module_init" "target_frame_rate module_init \<noteq> 0"
    "(11 / 100 :: rat) \<noteq> - (1 / 10000)" "(- (1 / 2) :: rat) \<noteq> - (1 / 10000)"
    "frame_count module_init = - 1"
    by (simp_all add: module_init_def globals_assigned_def)
  from setup_runs_once_on_first_update [OF h(1-3), of "[Tick (11 / 100), Tick (11 / 100)]"]
    setup_runs_once_on_first_update [OF h(1,2,4), of "[]"] h
  show ?thesis by simp
qed

text \<open>
  C4 as stated fails at \<open>dt = -0.0001\<close>: the first call of \<open>update\<close> raises
  \<open>ZeroDivisionError\<close> in the frame rate estimate of line 220, before \<open>pre_render\<close> and
  before the setup hook, and leaves \<open>frame_count\<close> at -1.
\<close>

theorem setup_runs_once_counterexample:
  "update (- (1 / 10000)) module_init = Inl (ZeroDivisionError, module_init) \<and>
   trace module_init = [] \<and> \<not> setup_done module_init \<and> frame_count module_init = - 1 \<and>
   run_ops [Tick (- (1 / 10000)), Tick (11 / 100)] module_init =
     Inl (ZeroDivisionError, module_init) \<and>
   count_list (trace (final (run_ops [Tick (- (1 / 10000)), Tick (11 / 100)] module_init)))
     CallSetup = 0"
  by (simp add: update_def module_init_def globals_assigned_def final_def)











lemma eligible_tick_draws_once:
  assumes sd: "setup_done s" and dr: "looping s \<or> truthy (redraw s)"
    and ok: "1 \<le> target_frame_rate s" "0 \<le> dt"
    and el: "due_for_frame dt s \<or> frame_count s = 0"
  shows "count_list (events_since s (final (update dt s))) CallDraw = 1"
proof -
  have tc: "tick_calls (due_for_frame dt s) s = CallDraw # handler_calls (handler_queue s)"
    using sd dr el by (simp add: tick_calls_def drawn_def)
  have n: "\<And>j. count_list (take j (handler_calls (handler_queue s))) CallDraw = 0"
  proof -
    fix j
    have "CallDraw \<notin> set (take j (handler_calls (handler_queue s)))"
      using draw_not_in_handler_calls [of "handler_queue s"] by (auto dest: in_set_takeD)
    then show "count_list (take j (handler_calls (handler_queue s))) CallDraw = 0"
      by (simp add: count_list_0_iff)
  qed
  show ?thesis
  proof (cases "update dt s")
    case (Inl y)
    obtain x s' where y: "y = (x, s')" by (cases y)
    from update_Inl [OF _ elapsed_ok [OF ok(2)] rate_ok [OF ok(1)], of x s'] Inl y
    obtain k where k: "1 \<le> k"
      "effect (PreRender # take k (tick_calls (due_for_frame dt s) s)) s s'" by auto
    from k(1) obtain j where "k = Suc j" by (cases k) auto
    with k(2) tc have e: "effect (PreRender # CallDraw # take j (handler_calls (handler_queue s))) s s'"
      by simp
    from effect_count [OF e tick_event_calls(2)] n [of j] Inl y show ?thesis
      by (simp add: final_simps)
  next
    case (Inr s')
    from update_Inr [OF Inr] tc
    have e: "effect (PreRender # CallDraw # handler_calls (handler_queue s) @ [PostRender]) s s'"
      by simp
    from effect_count [OF e tick_event_calls(2)] n [of "length (handler_calls (handler_queue s))"] Inr
    show ?thesis by (simp add: final_simps)
  qed
qed

lemma idle_tick_does_not_draw:
  assumes sd: "setup_done s" and nd: "\<not> looping s" "\<not> truthy (redraw s)"
  shows "CallDraw \<notin> set (events_since s (final (update dt s)))"
proof -
  have tc: "CallDraw \<notin> set (tick_calls (due_for_frame dt s) s)"
    using sd nd by (simp add: tick_calls_def drawn_def draw_not_in_handler_calls)
  show ?thesis
  proof (cases "dt + 1 / 10000 = 0 \<or> target_frame_rate s = 0")
    case True
    from update_raises_early [OF True] show ?thesis by (auto simp: final_simps events_since_def)
  next
    case ok: False
    show ?thesis
    proof (cases "update dt s")
      case (Inl y)
      obtain x s' where y: "y = (x, s')" by (cases y)
      from update_Inl [of dt s x s'] Inl y ok obtain k where
        e: "effect (PreRender # take k (tick_calls (due_for_frame dt s) s)) s s'" by auto
      from effect_member [OF e tick_event_calls(2)] tc Inl y show ?thesis
        by (auto simp: final_simps dest: in_set_takeD)
    next
      case (Inr s')
      from update_Inr [OF Inr]
      have e: "effect (PreRender # tick_calls (due_for_frame dt s) s @ [PostRender]) s s'" by simp
      from effect_member [OF e tick_event_calls(2)] tc Inr show ?thesis
        by (auto simp: final_simps)
    qed
  qed
qed


lemmas eval_defs = update_def frame_body_def draw_step_def emit_def Let_def accepts_args_def
  module_init_def globals_assigned_def no_loop_def loop_def redraw_fn_def exit_fn_def
  py_int_def final_def events_since_def due_for_frame_def



section \<open>Redraw requests\<close>

lemma exec_keeps_redraw: "c \<noteq> Redraw \<Longrightarrow> redraw (final (exec c s)) = redraw s"
  by (cases c) (simp_all add: final_def no_loop_def loop_def size_fn_def
      title_fn_def no_cursor_def cursor_def exit_fn_def set_frame_rate_def emit_def Let_def)

lemma exec_body_keeps_redraw:
  "Redraw \<notin> set cs \<Longrightarrow> redraw (final (exec_body cs s)) = redraw s"
proof (induction cs arbitrary: s)
  case Nil
  then show ?case by (simp add: final_simps)
next
  case (Cons c cs)
  then have c: "c \<noteq> Redraw" and cs: "Redraw \<notin> set cs" by auto
  from exec_keeps_redraw [OF c, of s] Cons.IH [OF cs] show ?case
    by (cases "exec c s") (auto simp: final_simps)
qed

lemma call_keeps_redraw:
  "Redraw \<notin> set (body_of f) \<Longrightarrow> call f args s = Inr (v, s') \<Longrightarrow> redraw s' = redraw s"
proof (induction f args s rule: call.induct)
  case (1 name ps body r args s)
  then show ?case using exec_body_keeps_redraw [of body s]
    by (auto simp: final_simps split: if_splits sum.splits)
next
  case (2 func args s)
  then show ?case by simp
next
  case (3 args s)
  then show ?case by auto
qed

lemma dispatch_keeps_redraw:
  "\<forall>(f, e) \<in> set q. Redraw \<notin> set (body_of f) \<Longrightarrow> dispatch q s = Inr s' \<Longrightarrow>
   redraw s' = redraw s"
proof (induction q arbitrary: s)
  case Nil
  then show ?case by simp
next
  case (Cons p q)
  obtain f e where p: "p = (f, e)" by (cases p)
  from Cons.prems(2) p obtain v s1 where c: "call f [e] (emit (CallHandler f e) s) = Inr (v, s1)"
    and d: "dispatch q s1 = Inr s'"
    by (auto split: sum.splits)
  from Cons.prems(1) p have nf: "Redraw \<notin> set (body_of f)"
    and nq: "\<forall>(f, e) \<in> set q. Redraw \<notin> set (body_of f)" by auto
  from call_keeps_redraw [OF nf c] have "redraw s1 = redraw s" by (simp add: emit_def)
  with Cons.IH [OF nq d] show ?case by simp
qed

lemma draw_step_clears_redraw:
  "draw_step s = Inr s' \<Longrightarrow> looping s \<or> truthy (redraw s) \<Longrightarrow> redraw s' = Bool False"
  by (auto simp: draw_step_def Let_def split: sum.splits if_splits)

lemma update_clears_redraw:
  assumes u: "update dt s = Inr s'" and sd: "setup_done s"
    and el: "due_for_frame dt s \<or> frame_count s = 0"
    and dr: "looping s \<or> truthy (redraw s)"
    and nr: "\<forall>(f, e) \<in> set (handler_queue s). Redraw \<notin> set (body_of f)"
  shows "redraw s' = Bool False \<and> setup_done s'"
proof -
  from update_Inr [OF u] have ok: "dt + 1 / 10000 \<noteq> 0" "target_frame_rate s \<noteq> 0"
    and sd': "setup_done s'" by simp_all
  let ?s0 = "emit PreRender (timed dt s)"
  from u update_unfold [OF ok] obtain s3 where
    f: "frame_body (due_for_frame dt s) ?s0 = Inr s3" and s': "s' = emit PostRender s3"
    by (auto split: sum.splits)
  have p: "setup_done ?s0" "due_for_frame dt s \<or> frame_count ?s0 = 0"
    "looping ?s0 \<or> truthy (redraw ?s0)" "handler_queue ?s0 = handler_queue s"
    using sd el dr by (simp_all add: emit_def timed_def)
  from f p(1,2) obtain s1 s2 where d: "draw_step ?s0 = Inr s1"
    and q: "dispatch (handler_queue s1) s1 = Inr s2"
    and s3: "s3 = s2\<lparr>handler_queue := [], time_since_last_frame := 0\<rparr>"
    by (auto simp: frame_body_def split: sum.splits)
  from draw_step_Inr [OF d] p(4) have hq: "handler_queue s1 = handler_queue s" by simp
  from draw_step_clears_redraw [OF d p(3)] have "redraw s1 = Bool False" .
  with dispatch_keeps_redraw [OF _ q] nr hq have "redraw s2 = Bool False" by simp
  with s3 s' sd' show ?thesis by (simp add: emit_def)
qed

text \<open>
  A request made between two ticks. With looping off, \<open>redraw()\<close> sets the global
  \<open>redraw\<close> to \<open>True\<close>; with looping on it changes nothing. When \<open>redraw()\<close> is called
  with looping off and the next eligible tick after setup (due for a frame, or
  \<open>frame_count = 0\<close>) follows directly, that tick calls the draw hook exactly once; when it
  returns and no queued handler has called \<open>redraw()\<close> again, the flag is \<open>False\<close>.
  A tick in a state where setup has run, looping is off and the flag is \<open>False\<close> does not
  call the draw hook.
\<close>

lemma redraw_requests_one_draw:
  "(looping s \<longrightarrow> redraw_fn s = s) \<and>
   (\<not> looping s \<longrightarrow> redraw_fn s = s\<lparr>redraw := Bool True\<rparr>) \<and>
   (\<not> looping s \<and> setup_done s \<and> 1 \<le> target_frame_rate s \<and> 0 \<le> dt \<and>
    (due_for_frame dt s \<or> frame_count s = 0) \<longrightarrow>
      count_list (events_since (redraw_fn s) (final (update dt (redraw_fn s)))) CallDraw = 1 \<and>
      (update dt (redraw_fn s) = Inr s1 \<and>
       (\<forall>(f, e) \<in> set (handler_queue s). Redraw \<notin> set (body_of f)) \<longrightarrow>
         redraw s1 = Bool False \<and> setup_done s1)) \<and>
   (setup_done s2 \<and> \<not> looping s2 \<and> redraw s2 = Bool False \<longrightarrow>
      CallDraw \<notin> set (events_since s2 (final (update dt2 s2))))"
proof -
  have a: "looping s \<longrightarrow> redraw_fn s = s" by (simp add: redraw_fn_def)
  have b: "\<not> looping s \<longrightarrow> redraw_fn s = s\<lparr>redraw := Bool True\<rparr>" by (simp add: redraw_fn_def)
  have c: "count_list (events_since (redraw_fn s) (final (update dt (redraw_fn s)))) CallDraw = 1 \<and>
      (update dt (redraw_fn s) = Inr s1 \<and>
       (\<forall>(f, e) \<in> set (handler_queue s). Redraw \<notin> set (body_of f)) \<longrightarrow>
         redraw s1 = Bool False \<and> setup_done s1)"
    if h: "\<not> looping s" "setup_done s" "1 \<le> target_frame_rate s" "0 \<le> dt"
      "due_for_frame dt s \<or> frame_count s = 0"
  proof -
    let ?r = "redraw_fn s"
    have r: "setup_done ?r" "looping ?r \<or> truthy (redraw ?r)" "1 \<le> target_frame_rate ?r"
      "due_for_frame dt ?r \<or> frame_count ?r = 0" "handler_queue ?r = handler_queue s"
      using h by (simp_all add: redraw_fn_def due_for_frame_def)
    from eligible_tick_draws_once [OF r(1,2,3) h(4) r(4)]
    have 1: "count_list (events_since ?r (final (update dt ?r))) CallDraw = 1" .
    have 2: "redraw s1 = Bool False \<and> setup_done s1"
      if "update dt ?r = Inr s1" "\<forall>(f, e) \<in> set (handler_queue s). Redraw \<notin> set (body_of f)"
      using update_clears_redraw [OF that(1) r(1) r(4) r(2)] that(2) r(5) by simp
    from 1 2 show ?thesis by blast
  qed
  have d: "setup_done s2 \<and> \<not> looping s2 \<and> redraw s2 = Bool False \<longrightarrow>
      CallDraw \<notin> set (events_since s2 (final (update dt2 s2)))"
    using idle_tick_does_not_draw [of s2 dt2] by simp
  from a b c d show ?thesis by blast
qed

lemma idle_sketch_redrawn:
  "\<exists>s1. update (11 / 100) (redraw_fn idle_sketch) = Inr s1"
  by (simp add: idle_sketch_def eval_defs default_draw_def)

text \<open>
  A sketch that is not looping, has drawn once and has an empty queue: \<open>redraw()\<close> and
  a tick of 0.11 s give one call of \<open>draw\<close> and clear the flag; the tick after gives none.
  In the state the module starts in (looping), \<open>redraw()\<close> changes nothing.
\<close>

lemma redraw_requests_one_draw_example:
  "looping module_init \<and> redraw_fn module_init = module_init \<and>
   \<not> looping idle_sketch \<and> setup_done idle_sketch \<and> 1 \<le> target_frame_rate idle_sketch \<and>
   (0::rat) \<le> 11 / 100 \<and> due_for_frame (11 / 100) idle_sketch \<and>
   redraw (redraw_fn idle_sketch) = Bool True \<and>
   count_list (events_since (redraw_fn idle_sketch)
     (final (update (11 / 100) (redraw_fn idle_sketch)))) CallDraw = 1 \<and>
   (\<exists>s1. update (11 / 100) (redraw_fn idle_sketch) = Inr s1 \<and> redraw s1 = Bool False \<and>
      setup_done s1 \<and> \<not> looping s1 \<and>
      CallDraw \<notin> set (events_since s1 (final (update (11 / 100) s1))))"
proof -
  have h: "\<not> looping idle_sketch" "setup_done idle_sketch" "1 \<le> target_frame_rate idle_sketch"
    "(0::rat) \<le> 11 / 100" "due_for_frame (11 / 100) idle_sketch" "handler_queue idle_sketch = []"
    by (simp_all add: idle_sketch_def module_init_def globals_assigned_def due_for_frame_def)
  have m: "looping module_init" by (simp add: module_init_def globals_assigned_def)
  from idle_sketch_redrawn obtain s1 where u: "update (11 / 100) (redraw_fn idle_sketch) = Inr s1" ..
  have l: "\<not> looping s1" using u
    by (auto simp: idle_sketch_def eval_defs default_draw_def)
  note t1 = redraw_requests_one_draw [of idle_sketch "11 / 100" s1 s1 "11 / 100"]
  note t2 = redraw_requests_one_draw [of module_init "11 / 100" s1 s1 "11 / 100"]
  have nq: "\<forall>(f, e) \<in> set (handler_queue idle_sketch). Redraw \<notin> set (body_of f)"
    using h(6) by simp
  from t1 h(1) have f1: "redraw_fn idle_sketch = idle_sketch\<lparr>redraw := Bool True\<rparr>"
    by blast
  from t1 h(1-5) have f2: "count_list (events_since (redraw_fn idle_sketch)
       (final (update (11 / 100) (redraw_fn idle_sketch)))) CallDraw = 1"
    by blast
  from t1 h(1-5) u nq have f3: "redraw s1 = Bool False" "setup_done s1"
    by blast+
  from t1 f3 l have 2: "CallDraw \<notin> set (events_since s1 (final (update (11 / 100) s1)))"
    by blast
  from t2 m have 3: "redraw_fn module_init = module_init" by blast
  from f1 have 4: "redraw (redraw_fn idle_sketch) = Bool True" by simp
  from h m u l f1 f2 f3 2 3 4 show ?thesis by blast
qed

text \<open>
  C3: a \<open>redraw()\<close> made with looping off is not always followed by a call of \<open>draw\<close>.
  The sketch's \<open>setup\<close> calls \<open>no_loop()\<close> and its \<open>draw\<close> calls \<open>redraw()\<close>; the ticks are
  0.11 s apart. The first tick runs \<open>setup\<close> and leaves looping off. The second tick
  (\<open>frame_count = 0\<close>) calls \<open>draw\<close>; the \<open>redraw()\<close> inside it sets the global to \<open>True\<close>
  (lines 138-140, here from \<open>False\<close>), and line 233, \<open>redraw = False\<close>, which runs after
  \<open>draw()\<close> has returned, overwrites it. So the tick ends with the flag \<open>False\<close>, and the
  third tick, which is due for a frame, calls the renderer only: \<open>draw\<close> is not called and
  \<open>frame_count\<close> stays 1, although \<open>redraw()\<close> has been called since the last clearing of
  the flag and its docstring promises exactly one call of \<open>draw()\<close>.
\<close>

theorem redraw_inside_draw_is_lost:
  "\<exists>s1 s2 s3.
     run_ops [Tick (11 / 100)] redrawing_sketch = Inr s1 \<and>
     trace s1 = [PreRender, CallSetup, PostRender] \<and>
     setup_done s1 \<and> \<not> looping s1 \<and> frame_count s1 = 0 \<and> draw s1 = redrawing_draw \<and>
     call (draw s1) [] (s1\<lparr>redraw := Bool False\<rparr>) = Inr (PNone, s1\<lparr>redraw := Bool True\<rparr>) \<and>
     update (11 / 100) s1 = Inr s2 \<and>
     events_since s1 s2 = [PreRender, CallDraw, PostRender] \<and>
     setup_done s2 \<and> \<not> looping s2 \<and> frame_count s2 = 1 \<and> handler_queue s2 = [] \<and>
     redraw s2 = Bool False \<and>
     due_for_frame (11 / 100) s2 \<and>
     update (11 / 100) s2 = Inr s3 \<and>
     events_since s2 s3 = [PreRender, PostRender] \<and>
     frame_count s3 = 1 \<and> redraw s3 = Bool False"
  by (simp add: redrawing_sketch_def redrawing_draw_def no_loop_setup_def eval_defs)

section \<open>Ticks that return\<close>

lemma exec_returns: "\<forall>args kwargs. c \<noteq> Exit args kwargs \<Longrightarrow> \<exists>s'. exec c s = Inr s'"
  by (cases c) auto

lemma exec_body_returns:
  "\<forall>args kwargs. Exit args kwargs \<notin> set cs \<Longrightarrow> \<exists>s'. exec_body cs s = Inr s'"
proof (induction cs arbitrary: s)
  case Nil
  show ?case by simp
next
  case (Cons c cs)
  then have "\<forall>args kwargs. c \<noteq> Exit args kwargs" by auto
  from exec_returns [OF this, of s] obtain s1 where "exec c s = Inr s1" ..
  moreover from Cons.prems have "\<forall>args kwargs. Exit args kwargs \<notin> set cs" by auto
  from Cons.IH [OF this, of s1] obtain s' where "exec_body cs s1 = Inr s'" ..
  ultimately show ?case by simp
qed

lemma call_returns:
  "returns_normally f (length args) \<Longrightarrow> \<exists>v s'. call f args s = Inr (v, s')"
proof (induction f args s rule: call.induct)
  case (1 name ps body r args s)
  then have "accepts_args ps (length args)" "\<forall>args kwargs. Exit args kwargs \<notin> set body"
    by (simp_all add: returns_normally_def)
  with exec_body_returns [of body s] show ?case by auto
next
  case (2 func args s)
  then show ?case by (simp add: returns_normally_def)
next
  case (3 args s)
  show ?case by simp
qed

lemma dispatch_returns:
  "\<forall>(f, e) \<in> set q. returns_normally f 1 \<Longrightarrow> \<exists>s'. dispatch q s = Inr s'"
proof (induction q arbitrary: s)
  case Nil
  show ?case by simp
next
  case (Cons p q)
  obtain f e where p: "p = (f, e)" by (cases p)
  with Cons.prems have "returns_normally f (length [e])" by simp
  from call_returns [OF this, of "emit (CallHandler f e) s"] obtain v s1 where
    c: "call f [e] (emit (CallHandler f e) s) = Inr (v, s1)" by blast
  from Cons.prems have "\<forall>(f, e) \<in> set q. returns_normally f 1" by simp
  from Cons.IH [OF this, of s1] obtain s' where "dispatch q s1 = Inr s'" ..
  with c p show ?case by simp
qed

lemma draw_step_returns:
  assumes "returns_normally (draw s) 0"
  shows "\<exists>s'. draw_step s = Inr s'"
proof -
  let ?s1 = "emit CallDraw (s\<lparr>frame_count := frame_count s + 1\<rparr>)"
  from assms have "returns_normally (draw ?s1) (length ([]::pyval list))" by (simp add: emit_def)
  from call_returns [OF this, of ?s1] obtain v s2 where "call (draw ?s1) [] ?s1 = Inr (v, s2)"
    by blast
  then show ?thesis by (simp add: draw_step_def Let_def)
qed

lemma frame_body_returns:
  assumes su: "setup_done s \<or> returns_normally (setup_hook s) 0"
    and dr: "returns_normally (draw s) 0"
    and hq: "\<forall>(f, e) \<in> set (handler_queue s). returns_normally f 1"
  shows "\<exists>s'. frame_body c s = Inr s'"
proof (cases "setup_done s")
  case False
  let ?s1 = "emit CallSetup (s\<lparr>frame_count := frame_count s + 1\<rparr>)"
  from su False have "returns_normally (setup_hook ?s1) (length ([]::pyval list))"
    by (simp add: emit_def)
  from call_returns [OF this, of ?s1] obtain v s2 where
    "call (setup_hook ?s1) [] ?s1 = Inr (v, s2)" by blast
  with False show ?thesis by (simp add: frame_body_def Let_def)
next
  case True
  from draw_step_returns [OF dr] obtain s1 where d: "draw_step s = Inr s1" ..
  from draw_step_Inr [OF d] hq have "\<forall>(f, e) \<in> set (handler_queue s1). returns_normally f 1"
    by simp
  from dispatch_returns [OF this, of s1] obtain s2 where "dispatch (handler_queue s1) s1 = Inr s2" ..
  with d True show ?thesis by (simp add: frame_body_def)
qed

lemma update_returns:
  assumes ok: "0 \<le> dt" "1 \<le> target_frame_rate s"
    and su: "setup_done s \<or> returns_normally (setup_hook s) 0"
    and dr: "returns_normally (draw s) 0"
    and hq: "\<forall>(f, e) \<in> set (handler_queue s). returns_normally f 1"
  shows "\<exists>s'. update dt s = Inr s'"
proof -
  let ?s0 = "emit PreRender (timed dt s)"
  have "setup_done ?s0 \<or> returns_normally (setup_hook ?s0) 0" "returns_normally (draw ?s0) 0"
    "\<forall>(f, e) \<in> set (handler_queue ?s0). returns_normally f 1"
    using su dr hq by (simp_all add: emit_def timed_def)
  from frame_body_returns [OF this, of "due_for_frame dt s"] obtain s3 where
    "frame_body (due_for_frame dt s) ?s0 = Inr s3" ..
  with update_unfold [OF elapsed_ok [OF ok(1)] rate_ok [OF ok(2)]] show ?thesis by simp
qed

section \<open>The event queue\<close>

lemma filter_handler_tick: "filter handler_call (filter tick_event evs) = filter handler_call evs"
  by (induction evs) (auto simp: tick_event_def)

lemma effect_handler_calls:
  "effect tevs s s' \<Longrightarrow> filter handler_call (events_since s s') = filter handler_call tevs"
  using effect_events [of tevs s s'] filter_handler_tick [of "events_since s s'"] by simp

lemma filter_handler_calls: "filter handler_call (handler_calls q) = handler_calls q"
  by (induction q) (auto simp: handler_calls_def)

lemma filter_handler_drawn: "filter handler_call (drawn s) = []"
  by (simp add: drawn_def)

lemma filter_handler_take:
  "filter handler_call (take k (drawn s @ handler_calls q)) =
   handler_calls (take (k - length (drawn s)) q)"
proof -
  have "filter handler_call (take k (drawn s)) = []"
    by (cases k) (simp_all add: drawn_def)
  then show ?thesis by (simp add: filter_handler_calls handler_calls_take [symmetric])
qed

lemma update_empties_queue:
  assumes u: "update dt s = Inr s'" and sd: "setup_done s"
    and el: "due_for_frame dt s \<or> frame_count s = 0"
  shows "handler_queue s' = []"
proof -
  from update_Inr [OF u] have ok: "dt + 1 / 10000 \<noteq> 0" "target_frame_rate s \<noteq> 0" by simp_all
  let ?s0 = "emit PreRender (timed dt s)"
  from u update_unfold [OF ok] obtain s3 where
    f: "frame_body (due_for_frame dt s) ?s0 = Inr s3" and s': "s' = emit PostRender s3"
    by (auto split: sum.splits)
  have "setup_done ?s0 \<and> (due_for_frame dt s \<or> frame_count ?s0 = 0)"
    using sd el by (simp add: emit_def timed_def)
  with frame_body_Inr [OF f] s' show ?thesis by (simp add: emit_def)
qed

lemma frame_body_Inl_queue:
  assumes f: "frame_body c s = Inl (x, s')"
  shows "handler_queue s' = handler_queue s"
proof (cases "setup_done s")
  case False
  let ?s1 = "emit CallSetup (s\<lparr>frame_count := frame_count s + 1\<rparr>)"
  from f False have "call (setup_hook ?s1) [] ?s1 = Inl (x, s')"
    by (auto simp: frame_body_def Let_def split: sum.splits)
  from call_quiet_Inl [OF this] show ?thesis by (simp add: quiet_def emit_def)
next
  case True
  with f have el: "c \<or> frame_count s = 0" by (auto simp: frame_body_def split: if_splits)
  show ?thesis
  proof (cases "draw_step s")
    case (Inl y)
    with f True el have "draw_step s = Inl (x, s')" by (auto simp: frame_body_def)
    from draw_step_Inl [OF this] show ?thesis by simp
  next
    case (Inr s1)
    with f True el have "dispatch (handler_queue s1) s1 = Inl (x, s')"
      by (auto simp: frame_body_def split: sum.splits)
    from dispatch_Inl [OF this] draw_step_Inr [OF Inr] show ?thesis by simp
  qed
qed

lemma update_Inl_queue:
  assumes u: "update dt s = Inl (x, s')"
  shows "handler_queue s' = handler_queue s"
proof (cases "dt + 1 / 10000 = 0 \<or> target_frame_rate s = 0")
  case True
  with u show ?thesis by (auto simp: update_def Let_def split: if_splits)
next
  case False
  with u update_unfold [of dt s] have
    "frame_body (due_for_frame dt s) (emit PreRender (timed dt s)) = Inl (x, s')"
    by (auto split: sum.splits)
  from frame_body_Inl_queue [OF this] show ?thesis by (simp add: emit_def timed_def)
qed

text \<open>
  C6, as the source has it: on an eligible tick (setup has run; due for a frame, or
  \<open>frame_count = 0\<close>) that returns, the queued callbacks have been called with their
  payloads, each once, in the order of the queue, and the queue is empty. Whatever the
  outcome of the tick, the callbacks called are an initial segment of the queue, in
  order: when the draw hook or a callback raises, the callbacks behind it are not
  called, and the queue is left as it was, not cleared. The tick returns when
  \<open>dt \<ge> 0\<close>, the target rate is at least 1, and the draw hook and the queued callbacks
  return.
\<close>

theorem queue_drained_in_order:
  "setup_done s \<and> (due_for_frame dt s \<or> frame_count s = 0) \<longrightarrow>
     (update dt s = Inr s' \<longrightarrow>
        filter handler_call (events_since s s') =
          map (\<lambda>(function, ev). CallHandler function ev) (handler_queue s) \<and>
        handler_queue s' = []) \<and>
     (\<exists>k\<le>length (handler_queue s).
        filter handler_call (events_since s (final (update dt s))) =
          map (\<lambda>(function, ev). CallHandler function ev) (take k (handler_queue s))) \<and>
     (update dt s = Inl (x, s') \<longrightarrow> handler_queue s' = handler_queue s) \<and>
     (0 \<le> dt \<and> 1 \<le> target_frame_rate s \<and> returns_normally (draw s) 0 \<and>
      (\<forall>(function, ev) \<in> set (handler_queue s). returns_normally function 1) \<longrightarrow>
        (\<exists>s'. update dt s = Inr s'))"
proof
  assume h: "setup_done s \<and> (due_for_frame dt s \<or> frame_count s = 0)"
  then have sd: "setup_done s" and el: "due_for_frame dt s \<or> frame_count s = 0" by simp_all
  have tc: "tick_calls (due_for_frame dt s) s = drawn s @ handler_calls (handler_queue s)"
    using sd el by (simp add: tick_calls_def)
  have r: "filter handler_call (events_since s s') = handler_calls (handler_queue s) \<and>
           handler_queue s' = []" if u: "update dt s = Inr s'" for s'
  proof -
    from update_Inr [OF u] tc
    have "effect (PreRender # (drawn s @ handler_calls (handler_queue s)) @ [PostRender]) s s'"
      by simp
    from effect_handler_calls [OF this] update_empties_queue [OF u sd el] show ?thesis
      by (simp add: filter_handler_drawn filter_handler_calls)
  qed
  have p: "\<exists>k\<le>length (handler_queue s).
        filter handler_call (events_since s (final (update dt s))) =
          handler_calls (take k (handler_queue s))"
  proof (cases "dt + 1 / 10000 = 0 \<or> target_frame_rate s = 0")
    case True
    from update_raises_early [OF True] have
      "filter handler_call (events_since s (final (update dt s))) =
         handler_calls (take 0 (handler_queue s))"
      by (auto simp: final_simps events_since_def handler_calls_def)
    then show ?thesis by blast
  next
    case ok: False
    show ?thesis
    proof (cases "update dt s")
      case (Inl y)
      obtain x s1 where y: "y = (x, s1)" by (cases y)
      from update_Inl [of dt s x s1] Inl y ok obtain k where
        k: "k \<le> length (tick_calls (due_for_frame dt s) s)"
        and e: "effect (PreRender # take k (tick_calls (due_for_frame dt s) s)) s s1" by auto
      from effect_handler_calls [OF e]
      have "filter handler_call (events_since s s1) =
              filter handler_call (take k (tick_calls (due_for_frame dt s) s))"
        by simp
      then have "filter handler_call (events_since s s1) =
              handler_calls (take (k - length (drawn s)) (handler_queue s))"
        unfolding tc filter_handler_take .
      moreover from k tc have "k - length (drawn s) \<le> length (handler_queue s)"
        by (simp add: handler_calls_def)
      ultimately show ?thesis using Inl y by (auto simp: final_simps)
    next
      case (Inr s1)
      from r [OF Inr] Inr have "filter handler_call (events_since s (final (update dt s))) =
          handler_calls (take (length (handler_queue s)) (handler_queue s))"
        by (simp add: final_simps)
      then show ?thesis by blast
    qed
  qed
  have q: "0 \<le> dt \<and> 1 \<le> target_frame_rate s \<and> returns_normally (draw s) 0 \<and>
      (\<forall>(function, ev) \<in> set (handler_queue s). returns_normally function 1) \<longrightarrow>
        (\<exists>s'. update dt s = Inr s')"
    using update_returns [of dt s] sd by blast
  have l: "update dt s = Inl (x, s') \<longrightarrow> handler_queue s' = handler_queue s"
    using update_Inl_queue [of dt s x s'] by blast
  from r [of s'] p q l
  show "(update dt s = Inr s' \<longrightarrow>
        filter handler_call (events_since s s') =
          map (\<lambda>(function, ev). CallHandler function ev) (handler_queue s) \<and>
        handler_queue s' = []) \<and>
     (\<exists>k\<le>length (handler_queue s).
        filter handler_call (events_since s (final (update dt s))) =
          map (\<lambda>(function, ev). CallHandler function ev) (take k (handler_queue s))) \<and>
     (update dt s = Inl (x, s') \<longrightarrow> handler_queue s' = handler_queue s) \<and>
     (0 \<le> dt \<and> 1 \<le> target_frame_rate s \<and> returns_normally (draw s) 0 \<and>
      (\<forall>(function, ev) \<in> set (handler_queue s). returns_normally function 1) \<longrightarrow>
        (\<exists>s'. update dt s = Inr s'))"
    by (simp add: handler_calls_def)
qed

lemma quitting_sketch_raises:
  "\<exists>s'. update (1 / 100) quitting_sketch = Inl (SystemExit, s')"
  by (simp add: quitting_sketch_def quit_handler_def default_draw_def eval_defs)

text \<open>
  Three queued events E1, E2, E3, with handlers that return; and a queue whose first
  handler calls \<open>exit()\<close>.
\<close>

theorem queue_drained_witness:
  "setup_done queued_sketch \<and> frame_count queued_sketch = 0 \<and>
   (0::rat) \<le> 1 / 100 \<and> 1 \<le> target_frame_rate queued_sketch \<and>
   returns_normally (draw queued_sketch) 0 \<and>
   returns_normally (Fixed zero_arg_handler) 1 \<and> returns_normally one_arg_handler 1 \<and>
   returns_normally Dummy 1 \<and>
   (\<exists>s'. update (1 / 100) queued_sketch = Inr s' \<and>
      filter handler_call (events_since queued_sketch s') =
        [CallHandler (Fixed zero_arg_handler) (PStr ''E1''),
         CallHandler one_arg_handler (PStr ''E2''), CallHandler Dummy (PStr ''E3'')] \<and>
      handler_queue s' = []) \<and>
   setup_done quitting_sketch \<and> frame_count quitting_sketch = 0 \<and>
   (\<exists>s'. update (1 / 100) quitting_sketch = Inl (SystemExit, s') \<and>
      handler_queue s' = [(quit_handler, PStr ''q''), (one_arg_handler, PStr ''E2'')])"
proof -
  have g: "setup_done quitting_sketch" "frame_count quitting_sketch = 0"
    "handler_queue quitting_sketch = [(quit_handler, PStr ''q''), (one_arg_handler, PStr ''E2'')]"
    by (simp_all add: quitting_sketch_def)
  from quitting_sketch_raises obtain s2 where
    u2: "update (1 / 100) quitting_sketch = Inl (SystemExit, s2)" ..
  from queue_drained_in_order [of quitting_sketch "1 / 100" s2 SystemExit] g(1,2) u2
  have "handler_queue s2 = handler_queue quitting_sketch" by blast
  with g(3) u2 have e: "\<exists>s'. update (1 / 100) quitting_sketch = Inl (SystemExit, s') \<and>
      handler_queue s' = [(quit_handler, PStr ''q''), (one_arg_handler, PStr ''E2'')]"
    by simp
  have h: "setup_done queued_sketch" "frame_count queued_sketch = 0"
    "handler_queue queued_sketch = [(Fixed zero_arg_handler, PStr ''E1''),
       (one_arg_handler, PStr ''E2''), (Dummy, PStr ''E3'')]"
    "(0::rat) \<le> 1 / 100" "1 \<le> target_frame_rate queued_sketch"
    by (simp_all add: queued_sketch_def module_init_def globals_assigned_def)
  have n: "returns_normally (draw queued_sketch) 0"
    "returns_normally (Fixed zero_arg_handler) 1" "returns_normally one_arg_handler 1"
    "returns_normally Dummy 1"
    by (simp_all add: returns_normally_def accepts_args_def queued_sketch_def module_init_def
        globals_assigned_def default_draw_def zero_arg_handler_def one_arg_handler_def)
  from n h(3) have a: "\<forall>(function, ev) \<in> set (handler_queue queued_sketch).
      returns_normally function 1"
    by simp
  from queue_drained_in_order [of queued_sketch "1 / 100"] h(1,2,4,5) n(1) a
  obtain s' where u: "update (1 / 100) queued_sketch = Inr s'" by blast
  from queue_drained_in_order [of queued_sketch "1 / 100" s'] h(1,2) u
  have "filter handler_call (events_since queued_sketch s') =
          map (\<lambda>(function, ev). CallHandler function ev) (handler_queue queued_sketch) \<and>
        handler_queue s' = []"
    by blast
  with h n u g(1,2) e show ?thesis by simp
qed

text \<open>
  C6 as stated fails when a callback raises. The module is imported, the first tick
  runs setup, two key events are queued, and the first one's handler calls \<open>exit()\<close>:
  on the second tick (eligible, \<open>frame_count = 0\<close>) the second callback is never called
  and the queue is not emptied.
\<close>

theorem queue_drained_counterexample:
  "\<exists>s'. run_ops [Tick (1 / 100), Enqueue quit_handler (PStr ''q''),
            Enqueue one_arg_handler (PStr ''E2''), Tick (1 / 100)] module_init =
          Inl (SystemExit, s') \<and>
        trace s' = [PreRender, CallSetup, PostRender, PreRender, CallDraw,
          CallHandler quit_handler (PStr ''q''), PygletAppExit, BuiltinsExit [] []] \<and>
        handler_queue s' = [(quit_handler, PStr ''q''), (one_arg_handler, PStr ''E2'')]"
  by (simp add: quit_handler_def one_arg_handler_def default_draw_def default_setup_def
      enqueue_def eval_defs)

section \<open>The renderer's bracket\<close>










end
